theory Spec2Isabelle
  imports Main "HOL-Library.Word"
begin

unbundle bit_operations_syntax

section \<open>Perl values\<close>

text \<open>
  The XS file \<^verbatim>\<open>xs/viewrow.c\<close> builds Perl values through the Perl API. Scalars that end
  up in a row or in a slot of the handle are modelled by their contents: the undefined
  value, the immortal true value, an integer, or a byte string together with its UTF-8
  flag. A C pointer to a byte buffer is \<open>None\<close> when it is \<^verbatim>\<open>NULL\<close> and otherwise the
  bytes found at it; the length travels separately, as in the C structures.
\<close>

type_synonym addr = nat

type_synonym cptr = "string option"

type_synonym lcb_error_t = int

datatype sv = Undef | Yes | IV int | PV string bool

type_synonym hv = "string \<rightharpoonup> sv"

text \<open>
  \<^verbatim>\<open>newSVpvn(s, n)\<close> of the Perl API copies \<open>n\<close> bytes into a fresh scalar without
  setting the UTF-8 flag; with a \<^verbatim>\<open>NULL\<close> buffer the fresh scalar is undefined.
  The buffer is taken to hold at least \<open>n\<close> bytes.
\<close>

fun newSVpvn :: "cptr \<Rightarrow> nat \<Rightarrow> sv" where
  "newSVpvn None n = Undef"
| "newSVpvn (Some bytes) n = PV (take n bytes) False"

fun SvUTF8_on :: "sv \<Rightarrow> sv" where
  "SvUTF8_on (PV bytes u) = PV bytes True"
| "SvUTF8_on v = v"

definition newSViv :: "int \<Rightarrow> sv" where
  "newSViv i = IV i"

definition newHV :: hv where
  "newHV = Map.empty"

definition hv_stores :: "hv \<Rightarrow> string \<Rightarrow> sv \<Rightarrow> hv" where
  "hv_stores h k v = h(k \<mapsto> v)"

text \<open>\<^verbatim>\<open>av_len\<close> is the highest index of an array, one less than its number of elements.\<close>

definition av_len :: "'a list \<Rightarrow> int" where
  "av_len xs = int (length xs) - 1"

text \<open>Truth of a string scalar, as \<^verbatim>\<open>SvTRUE\<close> decides it: empty and \<^verbatim>\<open>"0"\<close> are false.\<close>

definition SvTRUE :: "string \<Rightarrow> bool" where
  "SvTRUE s = (s \<noteq> [] \<and> s \<noteq> ''0'')"

section \<open>The reference-counted store\<close>

text \<open>
  The objects whose lifetime matters to the handle (the handle array, the references to
  it, the two buffers and the parent object) live in a store of reference-counted cells.
  An address is an index into the store; a released cell is \<open>None\<close>. The store records
  who refers to whom, which is what \<^verbatim>\<open>SvREFCNT_dec\<close> follows when a count drops to zero.
  Rows and their scalars are values and are not kept in the store. A destructor that the
  package of a blessed array may define is Perl code and has no counterpart here.
\<close>

text \<open>
  Modelled from the spec: the enumeration \<^verbatim>\<open>PLCB_VHIDX_*\<close> of \<^verbatim>\<open>perl-couchbase.h\<close> is
  missing from the sources. The slots that \<^verbatim>\<open>viewrow.c\<close> names are taken as distinct
  indices of the handle array, all below \<^verbatim>\<open>PLCB_VHIDX_MAX\<close>.
\<close>

datatype vhidx =
    PLCB_VHIDX_ROWBUF
  | PLCB_VHIDX_RAWROWS
  | PLCB_VHIDX_PARENT
  | PLCB_VHIDX_PRIVCB
  | PLCB_VHIDX_ISDONE
  | PLCB_VHIDX_RC
  | PLCB_VHIDX_META
  | PLCB_VHIDX_HTCODE

datatype body = AVb "(vhidx \<times> addr) list" | RVb addr | Scalar

record cell =
  refcnt :: nat
  body :: body
  stash :: "string option"

type_synonym heap = "cell option list"

definition lookup :: "heap \<Rightarrow> addr \<Rightarrow> cell option" where
  "lookup h a = (if a < length h then h ! a else None)"

definition alloc :: "heap \<Rightarrow> body \<Rightarrow> heap \<times> addr" where
  "alloc h b = (h @ [Some \<lparr>refcnt = 1, body = b, stash = None\<rparr>], length h)"

fun children :: "body \<Rightarrow> addr list" where
  "children (AVb slots) = map snd slots"
| "children (RVb a) = [a]"
| "children Scalar = []"

fun weight :: "cell option \<Rightarrow> nat" where
  "weight None = 0"
| "weight (Some c) = Suc (refcnt c)"

text \<open>
  Dropping references: the addresses still to be released are kept in a work list. A
  cell whose count is one is released and the cells it refers to are released in turn;
  a larger count is decremented; a dead address, or a cell whose count is already zero,
  is left alone.
\<close>

function sv_free_loop :: "heap \<Rightarrow> addr list \<Rightarrow> heap" where
  "sv_free_loop h [] = h"
| "sv_free_loop h (a # wl) =
     (case lookup h a of
        None \<Rightarrow> sv_free_loop h wl
      | Some c \<Rightarrow>
          if refcnt c = 0 then sv_free_loop h wl
          else if refcnt c = 1 then sv_free_loop (h[a := None]) (children (body c) @ wl)
          else sv_free_loop (h[a := Some (c\<lparr>refcnt := refcnt c - 1\<rparr>)]) wl)"
  by pat_completeness auto

termination
proof (relation "measures [\<lambda>(h, wl). sum_list (map weight h), \<lambda>(h, wl). length wl]")
  have less: "sum_list (map weight (h[a := v])) < sum_list (map weight h)"
    if "lookup h a = Some c" and "weight v < weight (Some c)" for h a v c
  proof -
    from that(1) have a: "a < length h" and c: "h ! a = Some c"
      by (simp_all add: lookup_def split: if_splits)
    from a have "weight (h ! a) \<in> set (map weight h)"
      by simp
    then have le: "weight (Some c) \<le> sum_list (map weight h)"
      using c member_le_sum_list by fastforce
    have "sum_list (map weight (h[a := v])) = sum_list (map weight h) + weight v - weight (h ! a)"
      using a by (simp add: map_update sum_list_update)
    with le c that(2) show ?thesis by simp
  qed
  show "wf (measures [\<lambda>(h, wl). sum_list (map weight h), \<lambda>(h, wl). length wl])"
    by simp
  show "((h, wl), h, a # wl) \<in> measures [\<lambda>(h, wl). sum_list (map weight h), \<lambda>(h, wl). length wl]"
    for h :: heap and a wl
    by simp
  then show "((h, wl), h, a # wl) \<in> measures [\<lambda>(h, wl). sum_list (map weight h), \<lambda>(h, wl). length wl]"
    for h :: heap and a wl .
  show "((h[a := None], children (body c) @ wl), h, a # wl)
      \<in> measures [\<lambda>(h, wl). sum_list (map weight h), \<lambda>(h, wl). length wl]"
    if "lookup h a = Some c" for h a wl c
    using less [OF that, of None] by simp
  show "((h[a := Some (c\<lparr>refcnt := refcnt c - 1\<rparr>)], wl), h, a # wl)
      \<in> measures [\<lambda>(h, wl). sum_list (map weight h), \<lambda>(h, wl). length wl]"
    if "lookup h a = Some c" and "refcnt c \<noteq> 0" for h a wl c
    using less [OF that(1), of "Some (c\<lparr>refcnt := refcnt c - 1\<rparr>)"] that(2) by simp
qed

definition SvREFCNT_dec :: "heap \<Rightarrow> addr \<Rightarrow> heap" where
  "SvREFCNT_dec h a = sv_free_loop h [a]"

definition SvREFCNT_inc :: "heap \<Rightarrow> addr \<Rightarrow> heap" where
  "SvREFCNT_inc h a =
     (case lookup h a of
        None \<Rightarrow> h
      | Some c \<Rightarrow> h[a := Some (c\<lparr>refcnt := Suc (refcnt c)\<rparr>)])"

definition newAV :: "heap \<Rightarrow> heap \<times> addr" where
  "newAV h = alloc h (AVb [])"

definition newRV_noinc :: "heap \<Rightarrow> addr \<Rightarrow> heap \<times> addr" where
  "newRV_noinc h a = alloc h (RVb a)"

definition newRV_inc :: "heap \<Rightarrow> addr \<Rightarrow> heap \<times> addr" where
  "newRV_inc h a = newRV_noinc (SvREFCNT_inc h a) a"

text \<open>Copying a reference gives a second reference to the same referent.\<close>

definition newSVsv :: "heap \<Rightarrow> addr \<Rightarrow> heap \<times> addr" where
  "newSVsv h src =
     (case lookup h src of
        Some c \<Rightarrow> (case body c of RVb a \<Rightarrow> newRV_inc h a | _ \<Rightarrow> alloc h Scalar)
      | None \<Rightarrow> alloc h Scalar)"

text \<open>Storing into a slot of an array hands the reference over; an old occupant is dropped.\<close>

definition av_store :: "heap \<Rightarrow> addr \<Rightarrow> vhidx \<Rightarrow> addr \<Rightarrow> heap" where
  "av_store h av i v =
     (case lookup h av of
        Some c \<Rightarrow>
          (case body c of
             AVb slots \<Rightarrow>
               (let h' = h[av := Some (c\<lparr>body := AVb ((i, v) # filter (\<lambda>s. fst s \<noteq> i) slots)\<rparr>)]
                in case map_of slots i of None \<Rightarrow> h' | Some old \<Rightarrow> SvREFCNT_dec h' old)
           | _ \<Rightarrow> h)
      | None \<Rightarrow> h)"

text \<open>Blessing through a reference marks the referent with the package.\<close>

definition sv_bless :: "heap \<Rightarrow> addr \<Rightarrow> string \<Rightarrow> heap" where
  "sv_bless h rv pkg =
     (case lookup h rv of
        Some c \<Rightarrow>
          (case body c of
             RVb a \<Rightarrow> (case lookup h a of
                          Some t \<Rightarrow> h[a := Some (t\<lparr>stash := Some pkg\<rparr>)]
                        | None \<Rightarrow> h)
           | _ \<Rightarrow> h)
      | None \<Rightarrow> h)"

section \<open>The handle and the engine's response\<close>

text \<open>
  The handle is a Perl array used as a structure. The record below holds what the
  dispatcher and the consumer read from its slots: the contents of the two buffers and
  the four slots written at the final event, each \<open>None\<close> while nothing has been stored
  there. The callback slot \<^verbatim>\<open>PLCB_VHIDX_PRIVCB\<close> is filled in by the issuing Perl code; the
  functions below take the stored callback as their first argument.
\<close>

record req =
  ROWBUF :: "hv list"
  RAWROWS :: "hv list"
  ISDONE :: "sv option"
  RC :: "sv option"
  META :: "sv option"
  HTCODE :: "sv option"

text \<open>
  The response structures of the query engine, with the fields \<^verbatim>\<open>viewrow.c\<close> reads.
  \<^verbatim>\<open>docresp\<close> and \<^verbatim>\<open>htresp\<close> are pointers, \<open>None\<close> when \<^verbatim>\<open>NULL\<close>.
\<close>

record respget =
  doc_rc :: lcb_error_t
  doc_value :: cptr
  doc_nvalue :: nat

record resphttp =
  htstatus :: int

record respviewquery =
  cookie :: addr
  rflags :: "16 word"
  rc :: lcb_error_t
  key :: cptr
  nkey :: nat
  "value" :: cptr
  nvalue :: nat
  geometry :: cptr
  ngeometry :: nat
  docid :: cptr
  ndocid :: nat
  docresp :: "respget option"
  htresp :: "resphttp option"

text \<open>Two constants of the engine's headers, with the values they have there.\<close>

definition LCB_SUCCESS :: lcb_error_t where
  "LCB_SUCCESS = 0"

definition LCB_RESP_F_FINAL :: "16 word" where
  "LCB_RESP_F_FINAL = 1"

section \<open>Calling the consumer\<close>

text \<open>
  A Perl exception is a value: a computation either finishes or croaks with a message.
  The consumer is the Perl callback stored in the handle. It is called with the handle
  and, unless the call is the completion notice, with the batch of rows; it returns or
  dies. \<^verbatim>\<open>call_sv\<close> lets the exception through unless \<^verbatim>\<open>G_EVAL\<close> is among its flags, in
  which case the message is left in \<^verbatim>\<open>ERRSV\<close>, which is empty after a normal return.
  The consumer reads the handle; the slots that the dispatcher writes are not written by
  the consumer. In this section the exception of the consumer is a string and no
  \<^verbatim>\<open>__WARN__\<close> hook is installed, and the log of warnings holds the text given to
  \<^verbatim>\<open>warn\<close>; the section on the consumer call in full lifts these restrictions.
\<close>

datatype 'a perl = Normal 'a | Croak string

datatype cb_result = Returned | Died string

type_synonym consumer = "req \<Rightarrow> hv list option \<Rightarrow> cb_result"

datatype gflag = G_DISCARD | G_EVAL

definition call_sv :: "consumer \<Rightarrow> req \<Rightarrow> hv list option \<Rightarrow> gflag set \<Rightarrow> string perl" where
  "call_sv meth q arg flags =
     (case meth q arg of
        Returned \<Rightarrow> Normal []
      | Died m \<Rightarrow> if G_EVAL \<in> flags then Normal m else Croak m)"

text \<open>
  The state between two events: the store, the handle's slots, and two logs that the
  program does not keep itself, namely every call made to the consumer (the slots as the
  consumer could read them at that moment, and the batch, \<open>None\<close> for the completion
  notice) and every warning printed.
\<close>

record world =
  heap :: heap
  req :: req
  calls :: "(req \<times> hv list option) list"
  warnings :: "string list"

text \<open>
  The last argument of \<^verbatim>\<open>invoke_row\<close> is either \<^verbatim>\<open>NULL\<close> or the reference held in the
  slot \<^verbatim>\<open>PLCB_VHIDX_RAWROWS\<close>; the array it refers to is cleared after the call.
\<close>

datatype rowsrv = NULL | Rawrows_rv

definition invoke_row :: "consumer \<Rightarrow> world \<Rightarrow> rowsrv \<Rightarrow> world perl" where
  "invoke_row meth w rowsrv =
     (let arg = (case rowsrv of NULL \<Rightarrow> None | Rawrows_rv \<Rightarrow> Some (RAWROWS (req w)));
          w1 = w\<lparr>calls := calls w @ [(req w, arg)]\<rparr>
      in case call_sv meth (req w) arg {G_DISCARD, G_EVAL} of
           Croak m \<Rightarrow> Croak m
         | Normal errsv \<Rightarrow>
             (let w2 = (if SvTRUE errsv
                        then w1\<lparr>warnings := warnings w1 @ [''Got error in '' @ errsv]\<rparr>
                        else w1);
                  w3 = (case rowsrv of
                          NULL \<Rightarrow> w2
                        | Rawrows_rv \<Rightarrow> w2\<lparr>req := (req w2)\<lparr>RAWROWS := []\<rparr>\<rparr>)
              in Normal w3))"

section \<open>The row dispatcher\<close>

definition sv_from_rowdata :: "cptr \<Rightarrow> nat \<Rightarrow> sv" where
  "sv_from_rowdata s n =
     (if s \<noteq> None \<and> n \<noteq> 0 then SvUTF8_on (newSVpvn s n) else Undef)"

text \<open>The hash built for a row event (lines 96 to 106 of \<^verbatim>\<open>viewrow_callback\<close>).\<close>

definition viewrow_rowdata :: "respviewquery \<Rightarrow> hv" where
  "viewrow_rowdata resp =
     (let rowdata = newHV;
          rowdata = hv_stores rowdata ''key'' (sv_from_rowdata (key resp) (nkey resp));
          rowdata = hv_stores rowdata ''value'' (sv_from_rowdata (value resp) (nvalue resp));
          rowdata = hv_stores rowdata ''geometry''
                      (sv_from_rowdata (geometry resp) (ngeometry resp));
          rowdata = hv_stores rowdata ''id'' (sv_from_rowdata (docid resp) (ndocid resp))
      in case docresp resp of
           None \<Rightarrow> rowdata
         | Some d \<Rightarrow>
             if doc_rc d = LCB_SUCCESS
             then hv_stores rowdata ''__doc__'' (newSVpvn (doc_value d) (doc_nvalue d))
             else rowdata)"

text \<open>
  \<^verbatim>\<open>plcb_evloop_wait_unref\<close> only touches the event-loop bookkeeping of the parent object,
  which no slot of the handle depends on; it has no counterpart here.
\<close>

definition viewrow_callback :: "consumer \<Rightarrow> world \<Rightarrow> respviewquery \<Rightarrow> world perl" where
  "viewrow_callback meth w resp =
     (if rflags resp AND LCB_RESP_F_FINAL \<noteq> 0 then
        (case invoke_row meth w Rawrows_rv of
           Croak m \<Rightarrow> Croak m
         | Normal w1 \<Rightarrow>
             (let q = (req w1)\<lparr>ISDONE := Some Yes\<rparr>;
                  q = q\<lparr>RC := Some (newSViv (rc resp))\<rparr>;
                  q = q\<lparr>META := Some (sv_from_rowdata (value resp) (nvalue resp))\<rparr>;
                  q = (case htresp resp of
                         None \<Rightarrow> q
                       | Some ht \<Rightarrow> q\<lparr>HTCODE := Some (newSViv (htstatus ht))\<rparr>)
              in case invoke_row meth (w1\<lparr>req := q\<rparr>) NULL of
                   Croak m \<Rightarrow> Croak m
                 | Normal w2 \<Rightarrow> Normal (w2\<lparr>heap := SvREFCNT_dec (heap w2) (cookie resp)\<rparr>)))
      else
        (let rowdata = viewrow_rowdata resp;
             w1 = w\<lparr>req := (req w)\<lparr>RAWROWS := RAWROWS (req w) @ [rowdata]\<rparr>\<rparr>
         in if av_len (RAWROWS (req w1)) \<ge> 20
            then invoke_row meth w1 Rawrows_rv
            else Normal w1))"

text \<open>
  The engine delivers the events of a query one after the other to the callback. An
  exception that left the callback would end the delivery.
\<close>

fun dispatch_events :: "consumer \<Rightarrow> world \<Rightarrow> respviewquery list \<Rightarrow> world perl" where
  "dispatch_events meth w [] = Normal w"
| "dispatch_events meth w (resp # resps) =
     (case viewrow_callback meth w resp of
        Croak m \<Rightarrow> Croak m
      | Normal w' \<Rightarrow> dispatch_events meth w' resps)"

definition is_final :: "respviewquery \<Rightarrow> bool" where
  "is_final resp = (rflags resp AND LCB_RESP_F_FINAL \<noteq> 0)"

text \<open>Reading the logs of an outcome.\<close>

fun batches :: "(req \<times> hv list option) list \<Rightarrow> hv list list" where
  "batches [] = []"
| "batches ((q, None) # cs) = batches cs"
| "batches ((q, Some b) # cs) = b # batches cs"

fun outcome_args :: "world perl \<Rightarrow> hv list option list" where
  "outcome_args (Normal w) = map snd (calls w)"
| "outcome_args (Croak m) = []"

fun warning_of :: "cb_result \<Rightarrow> string list" where
  "warning_of Returned = []"
| "warning_of (Died m) = (if SvTRUE m then [''Got error in '' @ m] else [])"

section \<open>Creating a handle\<close>

text \<open>
  Modelled from the spec: the structure \<^verbatim>\<open>PLCB_t\<close> of \<^verbatim>\<open>perl-couchbase.h\<close> is missing from
  the sources; it is given the three fields that \<^verbatim>\<open>viewrow.c\<close> reads. The engine's
  \<^verbatim>\<open>lcb_view_query\<close> and \<^verbatim>\<open>lcb_strerror\<close> belong to the query engine and are parameters.
\<close>

record PLCB_t =
  selfobj :: addr
  view_stash :: string
  "instance" :: nat

record cmdviewquery =
  ddoc :: string
  view :: string
  optstr :: string
  cmdflags :: int

type_synonym engine = "nat \<Rightarrow> addr \<Rightarrow> cmdviewquery \<Rightarrow> lcb_error_t"

definition lcb_view_query_initcmd :: "string \<Rightarrow> string \<Rightarrow> string \<Rightarrow> cmdviewquery" where
  "lcb_view_query_initcmd d v opts = \<lparr>ddoc = d, view = v, optstr = opts, cmdflags = 0\<rparr>"

text \<open>
  \<^verbatim>\<open>av_fill\<close> only reserves the slots; a reserved slot holds nothing, which the record
  of slots writes as \<open>None\<close> and the store as the absence of an entry.
\<close>

definition rowreq_init_common :: "heap \<Rightarrow> PLCB_t \<Rightarrow> addr \<Rightarrow> heap \<times> req" where
  "rowreq_init_common h parent rq =
     (let (h, rowbuf) = newAV h;
          (h, rowbuf_rv) = newRV_noinc h rowbuf;
          h = av_store h rq PLCB_VHIDX_ROWBUF rowbuf_rv;
          (h, rawrows) = newAV h;
          (h, rawrows_rv) = newRV_noinc h rawrows;
          h = av_store h rq PLCB_VHIDX_RAWROWS rawrows_rv;
          (h, parent_rv) = newRV_inc h (selfobj parent);
          h = av_store h rq PLCB_VHIDX_PARENT parent_rv
      in (h, \<lparr>ROWBUF = [], RAWROWS = [], ISDONE = None, RC = None, META = None,
               HTCODE = None\<rparr>))"

text \<open>The conversion \<^verbatim>\<open>%x\<close> of an \<^verbatim>\<open>int\<close>, read as an unsigned 32-bit number.\<close>

definition hexdigit :: "nat \<Rightarrow> char" where
  "hexdigit d = ''0123456789abcdef'' ! (d mod 16)"

fun hex :: "nat \<Rightarrow> string" where
  "hex n = (if n < 16 then [hexdigit n] else hex (n div 16) @ [hexdigit (n mod 16)])"

declare hex.simps [simp del]

definition fmt_x :: "int \<Rightarrow> string" where
  "fmt_x i = hex (nat (i mod 2 ^ 32))"

text \<open>
  What a successful call leaves behind: the reference returned to the issuer, the
  reference the engine keeps as its cookie, and the slots of the new handle. On failure
  the call dies; the message is modelled without the location that Perl appends to it.
\<close>

record viewhandle =
  blessed :: addr
  cbrv :: addr
  slots :: req

definition PLCB__viewhandle_new ::
  "engine \<Rightarrow> (lcb_error_t \<Rightarrow> string) \<Rightarrow> heap \<Rightarrow> PLCB_t \<Rightarrow> string \<Rightarrow> string \<Rightarrow> string \<Rightarrow> int
     \<Rightarrow> heap \<times> viewhandle perl" where
  "PLCB__viewhandle_new lcb_view_query lcb_strerror h parent d v options flags =
     (let (h, rq) = newAV h;
          (h, q) = rowreq_init_common h parent rq;
          (h, blessed_rv) = newRV_noinc h rq;
          h = sv_bless h blessed_rv (view_stash parent);
          (h, cb_rv) = newSVsv h blessed_rv;
          cmd = lcb_view_query_initcmd d v options;
          cmd = cmd\<lparr>cmdflags := flags\<rparr>;
          rc = lcb_view_query (instance parent) cb_rv cmd
      in if rc \<noteq> LCB_SUCCESS then
           (let h = SvREFCNT_dec h blessed_rv;
                h = SvREFCNT_dec h cb_rv
            in (h, Croak (''Couldn't issue view query: (0x'' @ fmt_x rc @ ''): ''
                          @ lcb_strerror rc)))
         else (h, Normal \<lparr>blessed = blessed_rv, cbrv = cb_rv, slots = q\<rparr>))"

section \<open>The engine's call of the dispatcher\<close>

text \<open>
  The first lines of \<^verbatim>\<open>viewrow_callback\<close> (72 to 76) reach the handle through the cookie:
  they read the reference, the array it refers to and the accumulator slot. These reads
  are defined while the cookie is a live reference to a live array. The final event
  drops the engine's reference at line 94; when that was the last one the cookie is
  released, and an event delivered afterwards would read freed memory. Nothing is said
  about such a run: the engine's delivery below is \<open>None\<close> from that event on.
\<close>

definition cookie_req :: "heap \<Rightarrow> addr \<Rightarrow> addr option" where
  "cookie_req h c =
     (case lookup h c of
        None \<Rightarrow> None
      | Some cell \<Rightarrow>
          (case body cell of
             RVb a \<Rightarrow>
               (case lookup h a of
                  None \<Rightarrow> None
                | Some t \<Rightarrow> (case body t of AVb ss \<Rightarrow> Some a | _ \<Rightarrow> None))
           | _ \<Rightarrow> None))"

fun engine_events :: "consumer \<Rightarrow> world \<Rightarrow> respviewquery list \<Rightarrow> world perl option" where
  "engine_events meth w [] = Some (Normal w)"
| "engine_events meth w (resp # resps) =
     (case cookie_req (heap w) (cookie resp) of
        None \<Rightarrow> None
      | Some rq \<Rightarrow>
          (case viewrow_callback meth w resp of
             Croak m \<Rightarrow> Some (Croak m)
           | Normal w' \<Rightarrow> engine_events meth w' resps))"

fun outcome_req :: "world perl option \<Rightarrow> req option" where
  "outcome_req (Some (Normal w)) = Some (req w)"
| "outcome_req r = None"

section \<open>The consumer call in full\<close>

text \<open>
  \<^verbatim>\<open>invoke_row\<close> above is the call for a consumer whose exception is a string, in an
  interpreter without a \<^verbatim>\<open>__WARN__\<close> hook; its log of warnings holds the text given to
  \<^verbatim>\<open>warn\<close>. In full, \<^verbatim>\<open>ERRSV\<close> after a failed call is a string or an exception object.
  The truth and the text of an object are computed by Perl code of its class (overloaded
  operators), which can return anything or die in turn. \<^verbatim>\<open>ERRSV\<close> can be false after a
  failed call: an object may overload its truth, and in Perls before 5.14 a destructor
  run while the stack unwinds can clear it. \<^verbatim>\<open>warn\<close> completes a text that does not end
  in a newline with the location of the running statement, and hands the line to the
  \<^verbatim>\<open>__WARN__\<close> hook when one is installed instead of printing it; the hook can die.
  Only the call of the consumer is inside the eval: the test of \<^verbatim>\<open>ERRSV\<close>, the reading of
  its text and \<^verbatim>\<open>warn\<close> (lines 44 to 46) are not, and an exception raised there leaves
  the dispatcher.
\<close>

datatype errsv = ErrStr string | ErrObj "bool perl" "string perl"

fun SvTRUE_sv :: "errsv \<Rightarrow> bool perl" where
  "SvTRUE_sv (ErrStr s) = Normal (SvTRUE s)"
| "SvTRUE_sv (ErrObj t s) = t"

fun SvPV_nolen :: "errsv \<Rightarrow> string perl" where
  "SvPV_nolen (ErrStr s) = Normal s"
| "SvPV_nolen (ErrObj t s) = s"

datatype cb_outcome = Finished | Threw errsv

type_synonym consumer_full = "req \<Rightarrow> hv list option \<Rightarrow> cb_outcome"

record interp =
  curcop :: string
  sig_warn :: "(string \<Rightarrow> cb_result) option"

definition call_sv_full ::
  "consumer_full \<Rightarrow> req \<Rightarrow> hv list option \<Rightarrow> gflag set \<Rightarrow> errsv perl" where
  "call_sv_full meth q arg flags =
     (case meth q arg of
        Finished \<Rightarrow> Normal (ErrStr [])
      | Threw e \<Rightarrow>
          if G_EVAL \<in> flags then Normal e
          else Croak (case SvPV_nolen e of Normal s \<Rightarrow> s | Croak m \<Rightarrow> m))"

definition warn_line :: "interp \<Rightarrow> string \<Rightarrow> string" where
  "warn_line env msg =
     (if msg \<noteq> [] \<and> last msg = CHR 0x0A then msg
      else msg @ '' at '' @ curcop env @ ''.'' @ [CHR 0x0A])"

definition warn :: "interp \<Rightarrow> world \<Rightarrow> string \<Rightarrow> world perl" where
  "warn env w msg =
     (case sig_warn env of
        None \<Rightarrow> Normal (w\<lparr>warnings := warnings w @ [warn_line env msg]\<rparr>)
      | Some hook \<Rightarrow>
          (case hook (warn_line env msg) of
             Returned \<Rightarrow> Normal w
           | Died m \<Rightarrow> Croak m))"

definition invoke_row_full :: "interp \<Rightarrow> consumer_full \<Rightarrow> world \<Rightarrow> rowsrv \<Rightarrow> world perl" where
  "invoke_row_full env meth w rowsrv =
     (let arg = (case rowsrv of NULL \<Rightarrow> None | Rawrows_rv \<Rightarrow> Some (RAWROWS (req w)));
          w1 = w\<lparr>calls := calls w @ [(req w, arg)]\<rparr>
      in case call_sv_full meth (req w) arg {G_DISCARD, G_EVAL} of
           Croak m \<Rightarrow> Croak m
         | Normal errsv \<Rightarrow>
             (case SvTRUE_sv errsv of
                Croak m \<Rightarrow> Croak m
              | Normal t \<Rightarrow>
                  (case (if t
                         then (case SvPV_nolen errsv of
                                 Croak m \<Rightarrow> Croak m
                               | Normal s \<Rightarrow> warn env w1 (''Got error in '' @ s))
                         else Normal w1) of
                     Croak m \<Rightarrow> Croak m
                   | Normal w2 \<Rightarrow>
                       Normal (case rowsrv of
                                 NULL \<Rightarrow> w2
                               | Rawrows_rv \<Rightarrow> w2\<lparr>req := (req w2)\<lparr>RAWROWS := []\<rparr>\<rparr>))))"

definition viewrow_callback_full ::
  "interp \<Rightarrow> consumer_full \<Rightarrow> world \<Rightarrow> respviewquery \<Rightarrow> world perl" where
  "viewrow_callback_full env meth w resp =
     (if rflags resp AND LCB_RESP_F_FINAL \<noteq> 0 then
        (case invoke_row_full env meth w Rawrows_rv of
           Croak m \<Rightarrow> Croak m
         | Normal w1 \<Rightarrow>
             (let q = (req w1)\<lparr>ISDONE := Some Yes\<rparr>;
                  q = q\<lparr>RC := Some (newSViv (rc resp))\<rparr>;
                  q = q\<lparr>META := Some (sv_from_rowdata (value resp) (nvalue resp))\<rparr>;
                  q = (case htresp resp of
                         None \<Rightarrow> q
                       | Some ht \<Rightarrow> q\<lparr>HTCODE := Some (newSViv (htstatus ht))\<rparr>)
              in case invoke_row_full env meth (w1\<lparr>req := q\<rparr>) NULL of
                   Croak m \<Rightarrow> Croak m
                 | Normal w2 \<Rightarrow> Normal (w2\<lparr>heap := SvREFCNT_dec (heap w2) (cookie resp)\<rparr>)))
      else
        (let rowdata = viewrow_rowdata resp;
             w1 = w\<lparr>req := (req w)\<lparr>RAWROWS := RAWROWS (req w) @ [rowdata]\<rparr>\<rparr>
         in if av_len (RAWROWS (req w1)) \<ge> 20
            then invoke_row_full env meth w1 Rawrows_rv
            else Normal w1))"

fun dispatch_events_full ::
  "interp \<Rightarrow> consumer_full \<Rightarrow> world \<Rightarrow> respviewquery list \<Rightarrow> world perl" where
  "dispatch_events_full env meth w [] = Normal w"
| "dispatch_events_full env meth w (resp # resps) =
     (case viewrow_callback_full env meth w resp of
        Croak m \<Rightarrow> Croak m
      | Normal w' \<Rightarrow> dispatch_events_full env meth w' resps)"




text \<open>
  A consumer of the first kind, seen as one of the second.
\<close>

definition consumer_of :: "consumer \<Rightarrow> consumer_full" where
  "consumer_of meth q arg = (case meth q arg of Returned \<Rightarrow> Finished | Died m \<Rightarrow> Threw (ErrStr m))"

section \<open>Example inputs\<close>

definition row_ex :: respviewquery where
  "row_ex = \<lparr>cookie = 2, rflags = 0, rc = 0, key = Some ''k1'', nkey = 2,
     value = Some [], nvalue = 0, geometry = None, ngeometry = 0,
     docid = Some ''doc-1'', ndocid = 5, docresp = None, htresp = None\<rparr>"

definition final_ex :: respviewquery where
  "final_ex = \<lparr>cookie = 2, rflags = 1, rc = 0, key = None, nkey = 0,
     value = Some ''{\"total_rows\":25}'', nvalue = 17, geometry = None, ngeometry = 0,
     docid = None, ndocid = 0, docresp = None, htresp = Some \<lparr>htstatus = 200\<rparr>\<rparr>"

definition consumer_ok :: consumer where
  "consumer_ok q arg = Returned"

definition req_ex :: req where
  "req_ex = \<lparr>ROWBUF = [], RAWROWS = [], ISDONE = None, RC = None, META = None, HTCODE = None\<rparr>"

text \<open>
  A store after a successful creation: the handle array at address 0, the issuer's
  reference to it at 1 and the engine's cookie at 2.
\<close>

definition heap_ex :: heap where
  "heap_ex = [Some \<lparr>refcnt = 2, body = AVb [], stash = Some ''Couchbase::View::Handle''\<rparr>,
              Some \<lparr>refcnt = 1, body = RVb 0, stash = None\<rparr>,
              Some \<lparr>refcnt = 1, body = RVb 0, stash = None\<rparr>]"

definition world_ex :: world where
  "world_ex = \<lparr>heap = heap_ex, req = req_ex, calls = [], warnings = []\<rparr>"

definition row2_ex :: respviewquery where
  "row2_ex = row_ex\<lparr>key := Some ''k2'', docid := Some ''doc-2''\<rparr>"

text \<open>Rows that carry a document sub-response: a failed fetch, a fetched document, and a
  successful sub-response without a payload.\<close>

definition row_docfail_ex :: respviewquery where
  "row_docfail_ex = row_ex\<lparr>docresp := Some \<lparr>doc_rc = 13, doc_value = None, doc_nvalue = 0\<rparr>\<rparr>"

definition row_docok_ex :: respviewquery where
  "row_docok_ex =
     row_ex\<lparr>docresp := Some \<lparr>doc_rc = 0, doc_value = Some ''{}'', doc_nvalue = 2\<rparr>\<rparr>"

definition row_docnull_ex :: respviewquery where
  "row_docnull_ex = row_ex\<lparr>docresp := Some \<lparr>doc_rc = 0, doc_value = None, doc_nvalue = 0\<rparr>\<rparr>"

definition row_docempty_ex :: respviewquery where
  "row_docempty_ex =
     row_ex\<lparr>docresp := Some \<lparr>doc_rc = 0, doc_value = Some [], doc_nvalue = 0\<rparr>\<rparr>"

text \<open>
  The same store, when the consumer has kept an alias of the cookie it was called with:
  the cookie then survives the release at the final event.
\<close>

definition heap2_ex :: heap where
  "heap2_ex = heap_ex[2 := Some \<lparr>refcnt = 2, body = RVb 0, stash = None\<rparr>]"

definition world2_ex :: world where
  "world2_ex = world_ex\<lparr>heap := heap2_ex\<rparr>"

text \<open>A parent object at address 0 of a store, and an engine that rejects every query.\<close>

definition parent_ex :: PLCB_t where
  "parent_ex = \<lparr>selfobj = 0, view_stash = ''Couchbase::View::Handle'', instance = 7\<rparr>"

definition parent_heap_ex :: heap where
  "parent_heap_ex = [Some \<lparr>refcnt = 1, body = Scalar, stash = Some ''Couchbase::Bucket''\<rparr>]"

definition engine_reject :: engine where
  "engine_reject i c cmd = 22"

definition engine_accept :: engine where
  "engine_accept i c cmd = LCB_SUCCESS"

definition strerror_ex :: "lcb_error_t \<Rightarrow> string" where
  "strerror_ex e = (if e = 22 then ''Network failure'' else ''Unknown'')"

text \<open>A final event without metadata and without a transport response.\<close>

definition final_empty_ex :: respviewquery where
  "final_empty_ex = final_ex\<lparr>value := Some [], nvalue := 0, htresp := None\<rparr>"

text \<open>
  A final event that reports a failure, and a row event whose value is missing.
\<close>

definition final_err_ex :: respviewquery where
  "final_err_ex = final_ex\<lparr>rc := 23, value := Some ''timeout'', nvalue := 7,
     htresp := Some \<lparr>htstatus = 500\<rparr>\<rparr>"

definition row_novalue_ex :: respviewquery where
  "row_novalue_ex = row_ex\<lparr>value := None\<rparr>"





section \<open>Properties\<close>

subsection \<open>One event\<close>

lemma call_sv_eval:
  "call_sv meth q arg {G_DISCARD, G_EVAL} =
     Normal (case meth q arg of Returned \<Rightarrow> [] | Died m \<Rightarrow> m)"
  by (simp add: call_sv_def split: cb_result.split)

lemma invoke_row_Rawrows:
  "invoke_row meth w Rawrows_rv =
     Normal (w\<lparr>calls := calls w @ [(req w, Some (RAWROWS (req w)))],
               warnings := warnings w @ warning_of (meth (req w) (Some (RAWROWS (req w)))),
               req := (req w)\<lparr>RAWROWS := []\<rparr>\<rparr>)"
  by (simp add: invoke_row_def call_sv_eval SvTRUE_def Let_def split: cb_result.split)

lemma invoke_row_NULL:
  "invoke_row meth w NULL =
     Normal (w\<lparr>calls := calls w @ [(req w, None)],
               warnings := warnings w @ warning_of (meth (req w) None)\<rparr>)"
  by (simp add: invoke_row_def call_sv_eval SvTRUE_def Let_def split: cb_result.split)

lemma av_len_snoc: "(20 \<le> av_len (xs @ [x])) = (20 \<le> length xs)"
  by (simp add: av_len_def)

lemma viewrow_callback_final:
  assumes "is_final resp"
  shows "viewrow_callback meth w resp =
       Normal (w\<lparr>calls := calls w @ [(req w, Some (RAWROWS (req w))),
                     ((req w)\<lparr>RAWROWS := [], ISDONE := Some Yes, RC := Some (IV (rc resp)),
              META := Some (sv_from_rowdata (value resp) (nvalue resp)),
              HTCODE := (case htresp resp of None \<Rightarrow> HTCODE (req w)
                         | Some ht \<Rightarrow> Some (IV (htstatus ht)))\<rparr>, None)],
                 warnings := warnings w @ warning_of (meth (req w) (Some (RAWROWS (req w))))
                    @ warning_of (meth ((req w)\<lparr>RAWROWS := [], ISDONE := Some Yes, RC := Some (IV (rc resp)),
              META := Some (sv_from_rowdata (value resp) (nvalue resp)),
              HTCODE := (case htresp resp of None \<Rightarrow> HTCODE (req w)
                         | Some ht \<Rightarrow> Some (IV (htstatus ht)))\<rparr>) None),
                 req := (req w)\<lparr>RAWROWS := [], ISDONE := Some Yes, RC := Some (IV (rc resp)),
              META := Some (sv_from_rowdata (value resp) (nvalue resp)),
              HTCODE := (case htresp resp of None \<Rightarrow> HTCODE (req w)
                         | Some ht \<Rightarrow> Some (IV (htstatus ht)))\<rparr>,
                 heap := SvREFCNT_dec (heap w) (cookie resp)\<rparr>)"
  using assms
  by (simp add: viewrow_callback_def is_final_def invoke_row_Rawrows invoke_row_NULL Let_def
      newSViv_def split: option.split)

lemma viewrow_callback_keep:
  assumes "\<not> is_final resp" and "length (RAWROWS (req w)) < 20"
  shows "viewrow_callback meth w resp =
     Normal (w\<lparr>req := (req w)\<lparr>RAWROWS := RAWROWS (req w) @ [viewrow_rowdata resp]\<rparr>\<rparr>)"
  using assms
  by (simp add: viewrow_callback_def is_final_def Let_def av_len_snoc)

lemma viewrow_callback_flush:
  assumes "\<not> is_final resp" and "20 \<le> length (RAWROWS (req w))"
  shows "viewrow_callback meth w resp =
     Normal (w\<lparr>calls := calls w @ [((req w)\<lparr>RAWROWS := RAWROWS (req w) @ [viewrow_rowdata resp]\<rparr>,
                                     Some (RAWROWS (req w) @ [viewrow_rowdata resp]))],
               warnings := warnings w @ warning_of
                 (meth ((req w)\<lparr>RAWROWS := RAWROWS (req w) @ [viewrow_rowdata resp]\<rparr>)
                    (Some (RAWROWS (req w) @ [viewrow_rowdata resp]))),
               req := (req w)\<lparr>RAWROWS := []\<rparr>\<rparr>)"
  using assms
  by (simp add: viewrow_callback_def is_final_def invoke_row_Rawrows Let_def av_len_snoc)

lemma batches_append: "batches (xs @ ys) = batches xs @ batches ys"
  by (induction xs rule: batches.induct) simp_all

lemma dispatch_events_append:
  "dispatch_events meth w (xs @ ys) =
     (case dispatch_events meth w xs of
        Croak m \<Rightarrow> Croak m
      | Normal w' \<Rightarrow> dispatch_events meth w' ys)"
  by (induction xs arbitrary: w) (simp_all split: perl.split)

subsection \<open>Sequences of events\<close>

lemma dispatch_rows:
  assumes "\<forall>r\<in>set rs. \<not> is_final r"
  shows "\<exists>w'. dispatch_events meth w rs = Normal w' \<and>
     concat (batches (calls w')) @ RAWROWS (req w')
       = concat (batches (calls w)) @ RAWROWS (req w) @ map viewrow_rowdata rs \<and>
     heap w' = heap w \<and> ROWBUF (req w') = ROWBUF (req w) \<and>
     ISDONE (req w') = ISDONE (req w) \<and> RC (req w') = RC (req w) \<and>
     META (req w') = META (req w) \<and> HTCODE (req w') = HTCODE (req w)"
  using assms
proof (induction rs arbitrary: w)
  case Nil
  then show ?case by simp
next
  case (Cons r rs)
  from Cons.prems have r: "\<not> is_final r" and rs: "\<forall>r\<in>set rs. \<not> is_final r"
    by simp_all
  show ?case
  proof (cases "20 \<le> length (RAWROWS (req w))")
    case True
    show ?thesis
      using Cons.IH [OF rs, of "w\<lparr>calls := calls w @ [((req w)\<lparr>RAWROWS := RAWROWS (req w) @ [viewrow_rowdata r]\<rparr>,
                                     Some (RAWROWS (req w) @ [viewrow_rowdata r]))],
               warnings := warnings w @ warning_of
                 (meth ((req w)\<lparr>RAWROWS := RAWROWS (req w) @ [viewrow_rowdata r]\<rparr>)
                    (Some (RAWROWS (req w) @ [viewrow_rowdata r]))),
               req := (req w)\<lparr>RAWROWS := []\<rparr>\<rparr>"]
      by (simp add: viewrow_callback_flush [OF r True] batches_append)
  next
    case False
    then have lt: "length (RAWROWS (req w)) < 20" by simp
    show ?thesis
      using Cons.IH [OF rs, of "w\<lparr>req := (req w)\<lparr>RAWROWS := RAWROWS (req w) @ [viewrow_rowdata r]\<rparr>\<rparr>"]
      by (simp add: viewrow_callback_keep [OF r lt])
  qed
qed

lemma dispatch_rows_sizes:
  assumes "\<forall>r\<in>set rs. \<not> is_final r" and "length (RAWROWS (req w)) \<le> 20"
  shows "\<exists>w'. dispatch_events meth w rs = Normal w' \<and>
     map (map_option length) (map snd (calls w'))
       = map (map_option length) (map snd (calls w))
         @ replicate ((length (RAWROWS (req w)) + length rs) div 21) (Some 21) \<and>
     map length (batches (calls w'))
       = map length (batches (calls w))
         @ replicate ((length (RAWROWS (req w)) + length rs) div 21) 21 \<and>
     length (RAWROWS (req w')) = (length (RAWROWS (req w)) + length rs) mod 21"
  using assms
proof (induction rs arbitrary: w)
  case Nil
  then show ?case by simp
next
  case (Cons r rs)
  from Cons.prems have r: "\<not> is_final r" and rs: "\<forall>r\<in>set rs. \<not> is_final r"
    and m: "length (RAWROWS (req w)) \<le> 20"
    by simp_all
  show ?case
  proof (cases "length (RAWROWS (req w)) = 20")
    case True
    then have ge: "20 \<le> length (RAWROWS (req w))" by simp
    have "20 + Suc (length rs) = length rs + 21" by simp
    then have d: "(20 + Suc (length rs)) div 21 = Suc (length rs div 21)"
      and e: "(20 + Suc (length rs)) mod 21 = length rs mod 21"
      by (simp_all only: div_add_self2 mod_add_self2)
    show ?thesis
      using Cons.IH [OF rs, of "w\<lparr>calls := calls w @ [((req w)\<lparr>RAWROWS := RAWROWS (req w) @ [viewrow_rowdata r]\<rparr>,
                                     Some (RAWROWS (req w) @ [viewrow_rowdata r]))],
               warnings := warnings w @ warning_of
                 (meth ((req w)\<lparr>RAWROWS := RAWROWS (req w) @ [viewrow_rowdata r]\<rparr>)
                    (Some (RAWROWS (req w) @ [viewrow_rowdata r]))),
               req := (req w)\<lparr>RAWROWS := []\<rparr>\<rparr>"] True d e
      by (simp add: viewrow_callback_flush [OF r ge] batches_append replicate_app_Cons_same)
  next
    case False
    with m have lt: "length (RAWROWS (req w)) < 20" by simp
    show ?thesis
      using Cons.IH [OF rs, of "w\<lparr>req := (req w)\<lparr>RAWROWS := RAWROWS (req w) @ [viewrow_rowdata r]\<rparr>\<rparr>"] lt
      by (simp add: viewrow_callback_keep [OF r lt])
  qed
qed

lemma viewrow_callback_total: "\<exists>w'. viewrow_callback meth w resp = Normal w'"
proof (cases "is_final resp")
  case True
  then show ?thesis by (simp add: viewrow_callback_final)
next
  case False
  then show ?thesis
    by (cases "20 \<le> length (RAWROWS (req w))")
      (simp_all add: viewrow_callback_flush viewrow_callback_keep)
qed

lemma dispatch_events_total: "\<exists>w'. dispatch_events meth w resps = Normal w'"
proof (induction resps arbitrary: w)
  case Nil
  show ?case by simp
next
  case (Cons r rs)
  from viewrow_callback_total obtain w1 where "viewrow_callback meth w r = Normal w1"
    by blast
  with Cons.IH [of w1] show ?case by simp
qed

text \<open>The consumer's outcome only shows in the warnings.\<close>

lemma viewrow_callback_consumer:
  assumes "req w = req v" and "calls w = calls v" and "heap w = heap v"
  shows "\<exists>w' v'. viewrow_callback meth w resp = Normal w' \<and>
           viewrow_callback meth' v resp = Normal v' \<and>
           req w' = req v' \<and> calls w' = calls v' \<and> heap w' = heap v'"
proof (cases "is_final resp")
  case True
  then show ?thesis using assms by (simp add: viewrow_callback_final split: option.split)
next
  case False
  then show ?thesis using assms
    by (cases "20 \<le> length (RAWROWS (req v))")
      (simp_all add: viewrow_callback_flush viewrow_callback_keep)
qed

lemma dispatch_events_consumer:
  assumes "req w = req v" and "calls w = calls v" and "heap w = heap v"
  shows "\<exists>w' v'. dispatch_events meth w resps = Normal w' \<and>
           dispatch_events meth' v resps = Normal v' \<and>
           req w' = req v' \<and> calls w' = calls v' \<and> heap w' = heap v'"
  using assms
proof (induction resps arbitrary: w v)
  case Nil
  then show ?case by simp
next
  case (Cons r rs)
  from viewrow_callback_consumer [OF Cons.prems, of meth r meth']
  obtain w1 v1 where "viewrow_callback meth w r = Normal w1"
    and "viewrow_callback meth' v r = Normal v1"
    and "req w1 = req v1" "calls w1 = calls v1" "heap w1 = heap v1"
    by blast
  with Cons.IH [of w1 v1] show ?case by simp
qed

text \<open>One completion notice per final event; the completion slot is never cleared.\<close>

lemma viewrow_callback_notices:
  "\<exists>w'. viewrow_callback meth w resp = Normal w' \<and>
     length (filter (\<lambda>c. snd c = None) (calls w'))
       = length (filter (\<lambda>c. snd c = None) (calls w)) + (if is_final resp then 1 else 0) \<and>
     (ISDONE (req w) = Some Yes \<longrightarrow> ISDONE (req w') = Some Yes)"
proof (cases "is_final resp")
  case True
  then show ?thesis by (simp add: viewrow_callback_final)
next
  case False
  then show ?thesis
    by (cases "20 \<le> length (RAWROWS (req w))")
      (simp_all add: viewrow_callback_flush viewrow_callback_keep)
qed

lemma dispatch_events_notices:
  "\<exists>w'. dispatch_events meth w resps = Normal w' \<and>
     length (filter (\<lambda>c. snd c = None) (calls w'))
       = length (filter (\<lambda>c. snd c = None) (calls w)) + length (filter is_final resps) \<and>
     (ISDONE (req w) = Some Yes \<longrightarrow> ISDONE (req w') = Some Yes)"
proof (induction resps arbitrary: w)
  case Nil
  show ?case by simp
next
  case (Cons r rs)
  from viewrow_callback_notices [of meth w r]
  obtain w1 where w1: "viewrow_callback meth w r = Normal w1"
    and n1: "length (filter (\<lambda>c. snd c = None) (calls w1))
       = length (filter (\<lambda>c. snd c = None) (calls w)) + (if is_final r then 1 else 0)"
    and d1: "ISDONE (req w) = Some Yes \<longrightarrow> ISDONE (req w1) = Some Yes"
    by blast
  from Cons.IH [of w1] obtain w2 where w2: "dispatch_events meth w1 rs = Normal w2"
    and n2: "length (filter (\<lambda>c. snd c = None) (calls w2))
       = length (filter (\<lambda>c. snd c = None) (calls w1)) + length (filter is_final rs)"
    and d2: "ISDONE (req w1) = Some Yes \<longrightarrow> ISDONE (req w2) = Some Yes"
    by blast
  have "dispatch_events meth w (r # rs) = Normal w2"
    using w1 w2 by simp
  moreover have "length (filter (\<lambda>c. snd c = None) (calls w2))
       = length (filter (\<lambda>c. snd c = None) (calls w)) + length (filter is_final (r # rs))"
    using n1 n2 by simp
  moreover have "ISDONE (req w) = Some Yes \<longrightarrow> ISDONE (req w2) = Some Yes"
    using d1 d2 by simp
  ultimately show ?case by blast
qed

lemma dispatch_query:
  assumes "\<forall>r\<in>set rs. \<not> is_final r" and "is_final f"
  shows "\<exists>w'. dispatch_events meth w (rs @ [f]) = Normal w' \<and>
     concat (batches (calls w'))
       = concat (batches (calls w)) @ RAWROWS (req w) @ map viewrow_rowdata rs \<and>
     RAWROWS (req w') = [] \<and> ROWBUF (req w') = ROWBUF (req w)"
proof -
  from dispatch_rows [OF assms(1), of meth w]
  obtain w1 where w1: "dispatch_events meth w rs = Normal w1"
    and inv: "concat (batches (calls w1)) @ RAWROWS (req w1)
       = concat (batches (calls w)) @ RAWROWS (req w) @ map viewrow_rowdata rs"
    and rb: "ROWBUF (req w1) = ROWBUF (req w)"
    by blast
  show ?thesis
    using w1 inv rb
    by (simp add: dispatch_events_append viewrow_callback_final [OF assms(2)] batches_append)
qed

lemma dispatch_query_sizes:
  assumes "\<forall>r\<in>set rs. \<not> is_final r" and "is_final f"
    and "length (RAWROWS (req w)) \<le> 20"
  shows "\<exists>w'. dispatch_events meth w (rs @ [f]) = Normal w' \<and>
     map (map_option length) (map snd (calls w'))
       = map (map_option length) (map snd (calls w))
         @ replicate ((length (RAWROWS (req w)) + length rs) div 21) (Some 21)
         @ [Some ((length (RAWROWS (req w)) + length rs) mod 21), None] \<and>
     map length (batches (calls w'))
       = map length (batches (calls w))
         @ replicate ((length (RAWROWS (req w)) + length rs) div 21) 21
         @ [(length (RAWROWS (req w)) + length rs) mod 21]"
proof -
  from dispatch_rows_sizes [OF assms(1,3), of meth]
  obtain w1 where w1: "dispatch_events meth w rs = Normal w1"
    and c1: "map (map_option length) (map snd (calls w1))
       = map (map_option length) (map snd (calls w))
         @ replicate ((length (RAWROWS (req w)) + length rs) div 21) (Some 21)"
    and b1: "map length (batches (calls w1))
       = map length (batches (calls w))
         @ replicate ((length (RAWROWS (req w)) + length rs) div 21) 21"
    and l1: "length (RAWROWS (req w1)) = (length (RAWROWS (req w)) + length rs) mod 21"
    by blast
  show ?thesis
    using w1 c1 b1 l1
    by (simp add: dispatch_events_append viewrow_callback_final [OF assms(2)] batches_append)
qed

lemma nonempty_count: "length (filter (\<lambda>b. b \<noteq> []) bs) = length (filter (\<lambda>n. n \<noteq> 0) (map length bs))"
  by (induction bs) simp_all

lemma ceil21_aux:
  fixes r k :: nat
  assumes "r < 21"
  shows "(r + k * 21 + 20) div 21 = k + (if r = 0 then 0 else 1)"
proof -
  have "r + k * 21 + 20 = r + 20 + k * 21" by simp
  then have "(r + k * 21 + 20) div 21 = (r + 20) div 21 + k"
    by (simp only: div_mult_self3)
  moreover have "(r + 20) div 21 = (if r = 0 then 0 else 1)"
  proof (cases "r = 0")
    case True then show ?thesis by simp
  next
    case False
    with assms have "21 \<le> r + 20" "r + 20 < 2 * 21" by simp_all
    then have "(r + 20) div 21 = 1"
      by (intro div_nat_eqI) simp_all
    with False show ?thesis by simp
  qed
  ultimately show ?thesis by simp
qed

lemma ceil21: "(n + 20) div 21 = n div 21 + (if n mod 21 = 0 then 0 else 1)" for n :: nat
proof -
  have "n mod 21 + n div 21 * 21 = n" by (rule mod_div_mult_eq)
  with ceil21_aux [of "n mod 21" "n div 21"] show ?thesis by simp
qed



subsection \<open>The engine's call\<close>

lemma lookup_sv_free_loop_dead:
  "lookup h c = None \<Longrightarrow> lookup (sv_free_loop h wl) c = None"
proof (induction h wl rule: sv_free_loop.induct)
  case (1 h)
  then show ?case by simp
next
  case (2 h a wl)
  show ?case
  proof (cases "lookup h a")
    case None
    with 2 show ?thesis by simp
  next
    case (Some cl)
    have upd: "lookup (h[a := v]) c = None" if "a \<noteq> c \<or> v = None" for v
      using "2.prems" that by (cases "a = c") (auto simp: lookup_def split: if_splits)
    from Some "2.prems" have ac: "a \<noteq> c" by auto
    show ?thesis
      using 2 Some ac upd by (simp split: if_splits)
  qed
qed

lemma SvREFCNT_dec_last_reference:
  assumes "lookup h c = Some cl" and "refcnt cl = 1"
  shows "lookup (SvREFCNT_dec h c) c = None"
proof -
  from assms(1) have "c < length h" by (simp add: lookup_def split: if_splits)
  then have "lookup (h[c := None]) c = None" by (simp add: lookup_def)
  then show ?thesis
    using assms by (simp add: SvREFCNT_dec_def lookup_sv_free_loop_dead)
qed

lemma cookie_req_released: "lookup h c = None \<Longrightarrow> cookie_req h c = None"
  by (simp add: cookie_req_def)

lemma engine_events_dispatch:
  "engine_events meth w resps = Some r \<Longrightarrow> r = dispatch_events meth w resps"
proof (induction resps arbitrary: w)
  case Nil
  then show ?case by simp
next
  case (Cons e es)
  from viewrow_callback_total obtain w1 where w1: "viewrow_callback meth w e = Normal w1"
    by blast
  with Cons.prems have "engine_events meth w1 es = Some r"
    by (simp split: option.splits)
  from Cons.IH [OF this] w1 show ?case by simp
qed

lemma engine_events_rows:
  assumes "\<forall>r\<in>set rs. \<not> is_final r \<and> cookie_req (heap w) (cookie r) \<noteq> None"
  shows "\<exists>w1. engine_events meth w (rs @ es) = engine_events meth w1 es \<and>
           dispatch_events meth w rs = Normal w1 \<and> heap w1 = heap w"
  using assms
proof (induction rs arbitrary: w)
  case Nil
  show ?case by simp
next
  case (Cons r rs)
  from Cons.prems have nf: "\<not> is_final r" and live: "cookie_req (heap w) (cookie r) \<noteq> None"
    by simp_all
  from dispatch_rows [of "[r]" meth w] nf
  obtain w1 where w1: "viewrow_callback meth w r = Normal w1" and h1: "heap w1 = heap w"
    by (auto split: perl.splits)
  from Cons.prems h1
  have "\<forall>r\<in>set rs. \<not> is_final r \<and> cookie_req (heap w1) (cookie r) \<noteq> None"
    by simp
  from Cons.IH [OF this] obtain w2
    where "engine_events meth w1 (rs @ es) = engine_events meth w2 es"
      and "dispatch_events meth w1 rs = Normal w2" and "heap w2 = heap w1"
    by blast
  with w1 h1 live show ?case by auto
qed

lemma engine_events_query:
  assumes "\<forall>r\<in>set rs. \<not> is_final r" and "is_final f"
    and "\<forall>r\<in>set (rs @ [f]). cookie_req (heap w) (cookie r) \<noteq> None"
  shows "engine_events meth w (rs @ [f]) = Some (dispatch_events meth w (rs @ [f]))"
proof -
  from assms(1,3)
  have "\<forall>r\<in>set rs. \<not> is_final r \<and> cookie_req (heap w) (cookie r) \<noteq> None"
    by simp
  from engine_events_rows [OF this, of meth "[f]"]
  obtain w1 where e: "engine_events meth w (rs @ [f]) = engine_events meth w1 [f]"
    and d: "dispatch_events meth w rs = Normal w1" and h: "heap w1 = heap w"
    by blast
  from assms(3) h have "cookie_req (heap w1) (cookie f) \<noteq> None" by simp
  then have "engine_events meth w1 [f] = Some (dispatch_events meth w1 [f])"
    by (auto split: perl.splits)
  with e d show ?thesis by (simp add: dispatch_events_append)
qed

lemma engine_events_after_release:
  assumes "is_final f" and "lookup (heap w) (cookie f) = Some cl" and "refcnt cl = 1"
    and "cookie r = cookie f"
  shows "engine_events meth w (f # r # rest) = None"
proof -
  have "lookup (SvREFCNT_dec (heap w) (cookie f)) (cookie f) = None"
    using assms(2,3) by (rule SvREFCNT_dec_last_reference)
  then have "cookie_req (SvREFCNT_dec (heap w) (cookie f)) (cookie r) = None"
    using assms(4) by (simp add: cookie_req_released)
  then show ?thesis
    by (simp add: viewrow_callback_final [OF assms(1)] split: option.split)
qed

subsection \<open>The consumer call in full\<close>








text \<open>
  With string exceptions that end in a newline and without a hook, the full functions
  are the plain ones.
\<close>

lemma invoke_row_full_plain:
  assumes "sig_warn env = None"
    and "\<forall>q a m. meth q a = Died m \<and> SvTRUE m \<longrightarrow> last m = CHR 0x0A"
  shows "invoke_row_full env (consumer_of meth) w rowsrv = invoke_row meth w rowsrv"
proof -
  have "warn_line env (''Got error in '' @ m) = ''Got error in '' @ m"
    if "meth q a = Died m" "SvTRUE m" for q a m
    using that assms(2) by (auto simp: warn_line_def SvTRUE_def)
  moreover have "\<not> SvTRUE []" by (simp add: SvTRUE_def)
  ultimately show ?thesis
    using assms(1)
    by (cases rowsrv)
      (auto simp: invoke_row_full_def invoke_row_def call_sv_full_def call_sv_def warn_def
        consumer_of_def Let_def split: cb_result.splits)
qed

lemma viewrow_callback_full_plain:
  assumes "sig_warn env = None"
    and "\<forall>q a m. meth q a = Died m \<and> SvTRUE m \<longrightarrow> last m = CHR 0x0A"
  shows "viewrow_callback_full env (consumer_of meth) w resp = viewrow_callback meth w resp"
  by (simp add: viewrow_callback_full_def viewrow_callback_def invoke_row_full_plain [OF assms]
      Let_def split: perl.split)

lemma dispatch_events_full_plain:
  assumes "sig_warn env = None"
    and "\<forall>q a m. meth q a = Died m \<and> SvTRUE m \<longrightarrow> last m = CHR 0x0A"
  shows "dispatch_events_full env (consumer_of meth) w resps = dispatch_events meth w resps"
  by (induction resps arbitrary: w)
    (simp_all add: viewrow_callback_full_plain [OF assms] split: perl.split)

subsection \<open>Facts about the example inputs\<close>

lemma is_final_final_ex: "is_final final_ex"
  by (simp add: is_final_def final_ex_def LCB_RESP_F_FINAL_def)

lemma not_final_row_ex: "\<not> is_final row_ex"
  by (simp add: is_final_def row_ex_def LCB_RESP_F_FINAL_def)

lemma not_final_row2_ex: "\<not> is_final row2_ex"
  by (simp add: is_final_def row_ex_def row2_ex_def LCB_RESP_F_FINAL_def)

lemma is_final_final_empty_ex: "is_final final_empty_ex"
  by (simp add: is_final_def final_empty_ex_def final_ex_def LCB_RESP_F_FINAL_def)

lemma world_ex_simps:
  "RAWROWS (req world_ex) = []" "calls world_ex = []" "warnings world_ex = []"
  "ROWBUF (req world_ex) = []" "ISDONE (req world_ex) = None"
  by (simp_all add: world_ex_def req_ex_def)

lemma final_ex_simps:
  "cookie final_ex = 2" "rc final_ex = 0" "value final_ex = Some ''{\"total_rows\":25}''"
  "nvalue final_ex = 17" "htresp final_ex = Some \<lparr>htstatus = 200\<rparr>"
  by (simp_all add: final_ex_def)

lemma final_empty_ex_simps:
  "value final_empty_ex = Some []" "nvalue final_empty_ex = 0"
  by (simp_all add: final_empty_ex_def)

lemma world2_ex_simps:
  "RAWROWS (req world2_ex) = []" "calls world2_ex = []" "ISDONE (req world2_ex) = None"
  "heap world2_ex = heap2_ex"
  by (simp_all add: world2_ex_def world_ex_def req_ex_def)

lemma is_final_final_err_ex: "is_final final_err_ex"
  by (simp add: is_final_def final_err_ex_def final_ex_def LCB_RESP_F_FINAL_def)

lemma final_err_ex_simps:
  "cookie final_err_ex = 2" "rc final_err_ex = 23" "value final_err_ex = Some ''timeout''"
  "nvalue final_err_ex = 7" "htresp final_err_ex = Some \<lparr>htstatus = 500\<rparr>"
  by (simp_all add: final_err_ex_def final_ex_def)

lemma row_ex_cookie: "cookie row_ex = 2" "cookie row2_ex = 2"
  by (simp_all add: row_ex_def row2_ex_def)

lemma cookie_req_heap_ex: "cookie_req heap_ex 2 = Some 0" "cookie_req heap2_ex 2 = Some 0"
  by (simp_all add: cookie_req_def lookup_def heap_ex_def heap2_ex_def)

lemma release_heap2_ex: "SvREFCNT_dec heap2_ex 2 = heap_ex"
  by (simp add: SvREFCNT_dec_def lookup_def heap2_ex_def heap_ex_def)

lemma engine_two_finals_defined:
  "\<exists>r. engine_events consumer_ok world2_ex [final_ex, final_ex] = Some r"
  by (simp add: viewrow_callback_final [OF is_final_final_ex] world2_ex_simps final_ex_simps
      cookie_req_heap_ex release_heap2_ex)

lemma engine_first_final:
  "\<exists>w2. engine_events consumer_ok world2_ex [final_ex] = Some (Normal w2) \<and>
     heap w2 = heap_ex \<and> ISDONE (req w2) = Some Yes"
  by (simp add: viewrow_callback_final [OF is_final_final_ex] world2_ex_simps final_ex_simps
      cookie_req_heap_ex release_heap2_ex)



subsection \<open>Batches delivered to the consumer\<close>

text \<open>
  Claim C1, as the code has it. The flush is gated by \<^verbatim>\<open>av_len(rawrows) >= 20\<close>, and
  \<^verbatim>\<open>av_len\<close> is the highest index, so the accumulator is flushed when it holds 21 rows.
  For a query of \<open>N\<close> row events followed by one final event, starting from an empty
  accumulator, the consumer is called with \<open>N div 21\<close> batches of 21 rows, then with the
  batch of the remaining \<open>N mod 21\<close> rows, then once with the completion notice, which is
  the last call. The non-empty batches number \<open>\<lceil>N / 21\<rceil>\<close> and their sizes add up to
  \<open>N\<close>.
\<close>

theorem batches_of_21:
  assumes "\<forall>r\<in>set rs. \<not> is_final r" and "is_final f"
    and "RAWROWS (req w) = []" and "calls w = []"
  shows "\<exists>w'. dispatch_events meth w (rs @ [f]) = Normal w' \<and>
     map (map_option length) (map snd (calls w'))
       = replicate (length rs div 21) (Some 21) @ [Some (length rs mod 21), None] \<and>
     length (filter (\<lambda>b. b \<noteq> []) (batches (calls w'))) = (length rs + 20) div 21 \<and>
     sum_list (map length (batches (calls w'))) = length rs"
proof -
  from assms(3) have "length (RAWROWS (req w)) \<le> 20" by simp
  from dispatch_query_sizes [OF assms(1,2) this, of meth]
  obtain w' where w': "dispatch_events meth w (rs @ [f]) = Normal w'"
    and c: "map (map_option length) (map snd (calls w'))
       = replicate (length rs div 21) (Some 21) @ [Some (length rs mod 21), None]"
    and b: "map length (batches (calls w'))
       = replicate (length rs div 21) 21 @ [length rs mod 21]"
    using assms(3,4) by auto
  have "length (filter (\<lambda>b. b \<noteq> []) (batches (calls w'))) = (length rs + 20) div 21"
    by (simp add: nonempty_count b ceil21)
  moreover have "sum_list (map length (batches (calls w'))) = length rs"
    by (simp add: b sum_list_replicate)
  ultimately show ?thesis using w' c by blast
qed

theorem batches_of_21_witness:
  "\<exists>w'. dispatch_events consumer_ok world_ex (replicate 25 row_ex @ [final_ex]) = Normal w' \<and>
     map (map_option length) (map snd (calls w')) = [Some 21, Some 4, None] \<and>
     length (filter (\<lambda>b. b \<noteq> []) (batches (calls w'))) = 2 \<and>
     sum_list (map length (batches (calls w'))) = 25"
  using batches_of_21 [of "replicate 25 row_ex" final_ex world_ex consumer_ok]
  by (simp add: is_final_final_ex not_final_row_ex world_ex_simps)

text \<open>
  Claim C1 as stated fails: 25 row events followed by the final event are delivered in
  batches of 21 and 4 rows, not of 20 and 5.
\<close>

theorem batch_sizes_25_counterexample:
  "map (map_option length)
     (outcome_args (dispatch_events consumer_ok world_ex (replicate 25 row_ex @ [final_ex])))
   = [Some 21, Some 4, None]"
proof -
  have "length (RAWROWS (req world_ex)) \<le> 20"
    by (simp add: world_ex_simps)
  from dispatch_query_sizes [OF _ is_final_final_ex this, of "replicate 25 row_ex" consumer_ok]
  show ?thesis
    by (auto simp: not_final_row_ex world_ex_simps)
qed

text \<open>
  Claim C2, as the code has it. At the final event the accumulator is flushed without
  looking at its length: the consumer is called once with the buffered rows, an empty
  batch when none remain, and then once with the completion notice. The number of
  non-empty batches grows only when rows remained. Afterwards the accumulator is empty
  and the row buffer is what it was.
\<close>

theorem final_flush_unconditional:
  assumes "is_final f"
  shows "\<exists>w'. dispatch_events meth w [f] = Normal w' \<and>
     map snd (calls w') = map snd (calls w) @ [Some (RAWROWS (req w)), None] \<and>
     length (filter (\<lambda>b. b \<noteq> []) (batches (calls w')))
       = length (filter (\<lambda>b. b \<noteq> []) (batches (calls w)))
         + (if RAWROWS (req w) = [] then 0 else 1) \<and>
     RAWROWS (req w') = [] \<and> ROWBUF (req w') = ROWBUF (req w)"
  by (simp add: viewrow_callback_final [OF assms] batches_append)

theorem final_flush_unconditional_witness:
  "\<exists>w'. dispatch_events consumer_ok world_ex [final_ex] = Normal w' \<and>
     map snd (calls w') = [Some [], None] \<and>
     length (filter (\<lambda>b. b \<noteq> []) (batches (calls w'))) = 0 \<and>
     RAWROWS (req w') = [] \<and> ROWBUF (req w') = []"
  using final_flush_unconditional [OF is_final_final_ex, of consumer_ok world_ex]
  by (simp add: world_ex_simps)

text \<open>
  Claim C2 as stated fails: with no row event before the final event the consumer is
  still called with an empty batch before the completion notice.
\<close>

theorem empty_batch_counterexample:
  "outcome_args (dispatch_events consumer_ok world_ex [final_ex]) = [Some [], None]"
  by (simp add: viewrow_callback_final [OF is_final_final_ex] world_ex_simps)

text \<open>
  Claim C4. The batches handed to the consumer, concatenated, are the rows in arrival
  order: after any run of row events the delivered rows followed by the buffered ones are
  the rows seen so far, and after the final event everything has been delivered.
\<close>

theorem rows_in_arrival_order:
  assumes "\<forall>r\<in>set rs. \<not> is_final r" and "is_final f"
  shows "(\<exists>w1. dispatch_events meth w rs = Normal w1 \<and>
            concat (batches (calls w1)) @ RAWROWS (req w1)
              = concat (batches (calls w)) @ RAWROWS (req w) @ map viewrow_rowdata rs) \<and>
         (\<exists>w'. dispatch_events meth w (rs @ [f]) = Normal w' \<and>
            concat (batches (calls w'))
              = concat (batches (calls w)) @ RAWROWS (req w) @ map viewrow_rowdata rs)"
  using dispatch_rows [OF assms(1), of meth w] dispatch_query [OF assms, of meth w]
  by blast

theorem rows_in_arrival_order_witness:
  "\<exists>w'. dispatch_events consumer_ok world_ex ([row_ex, row2_ex] @ [final_ex]) = Normal w' \<and>
     concat (batches (calls w')) = [viewrow_rowdata row_ex, viewrow_rowdata row2_ex]"
  using rows_in_arrival_order [of "[row_ex, row2_ex]" final_ex consumer_ok world_ex]
  by (simp add: is_final_final_ex not_final_row_ex not_final_row2_ex world_ex_simps)

subsection \<open>Faults of the consumer\<close>




subsection \<open>Decoding of row fields\<close>

lemma sv_from_rowdata_cases:
  "sv_from_rowdata s n =
     (case s of None \<Rightarrow> Undef | Some b \<Rightarrow> if n = 0 then Undef else PV (take n b) True)"
  by (cases s) (simp_all add: sv_from_rowdata_def)

lemma viewrow_rowdata_fields:
  "viewrow_rowdata resp ''key'' = Some (sv_from_rowdata (key resp) (nkey resp))"
  "viewrow_rowdata resp ''value'' = Some (sv_from_rowdata (value resp) (nvalue resp))"
  "viewrow_rowdata resp ''geometry'' = Some (sv_from_rowdata (geometry resp) (ngeometry resp))"
  "viewrow_rowdata resp ''id'' = Some (sv_from_rowdata (docid resp) (ndocid resp))"
  by (simp_all add: viewrow_rowdata_def newHV_def hv_stores_def Let_def split: option.split)

lemma viewrow_rowdata_doc:
  "viewrow_rowdata resp ''__doc__'' =
     (case docresp resp of
        None \<Rightarrow> None
      | Some d \<Rightarrow> if doc_rc d = LCB_SUCCESS
                  then Some (newSVpvn (doc_value d) (doc_nvalue d)) else None)"
  by (simp add: viewrow_rowdata_def newHV_def hv_stores_def Let_def split: option.split)

text \<open>
  Claim C5, as the code has it. In the hash built for a row event, each of the fields
  key, value, geometry and id whose source pointer is null or whose length is zero holds
  the undefined value, not an empty string; a field with a non-null pointer and a
  non-zero length holds its bytes with the UTF-8 flag set. A field that is present but
  empty (a non-null pointer with length zero) is stored as the same undefined value as a
  missing one (a null pointer), so the consumer cannot tell the two apart.
\<close>

theorem row_fields_absent_or_utf8:
  "(key resp = None \<or> nkey resp = 0 \<longrightarrow> viewrow_rowdata resp ''key'' = Some Undef) \<and>
   (value resp = None \<or> nvalue resp = 0 \<longrightarrow> viewrow_rowdata resp ''value'' = Some Undef) \<and>
   (geometry resp = None \<or> ngeometry resp = 0 \<longrightarrow>
      viewrow_rowdata resp ''geometry'' = Some Undef) \<and>
   (docid resp = None \<or> ndocid resp = 0 \<longrightarrow> viewrow_rowdata resp ''id'' = Some Undef) \<and>
   (\<forall>b. key resp = Some b \<and> nkey resp \<noteq> 0 \<longrightarrow>
      viewrow_rowdata resp ''key'' = Some (PV (take (nkey resp) b) True)) \<and>
   (\<forall>b. value resp = Some b \<and> nvalue resp \<noteq> 0 \<longrightarrow>
      viewrow_rowdata resp ''value'' = Some (PV (take (nvalue resp) b) True)) \<and>
   (\<forall>b. geometry resp = Some b \<and> ngeometry resp \<noteq> 0 \<longrightarrow>
      viewrow_rowdata resp ''geometry'' = Some (PV (take (ngeometry resp) b) True)) \<and>
   (\<forall>b. docid resp = Some b \<and> ndocid resp \<noteq> 0 \<longrightarrow>
      viewrow_rowdata resp ''id'' = Some (PV (take (ndocid resp) b) True)) \<and>
   (key resp = None \<and> (\<exists>b. key resp' = Some b) \<and> nkey resp' = 0 \<longrightarrow>
      viewrow_rowdata resp ''key'' = viewrow_rowdata resp' ''key'') \<and>
   (value resp = None \<and> (\<exists>b. value resp' = Some b) \<and> nvalue resp' = 0 \<longrightarrow>
      viewrow_rowdata resp ''value'' = viewrow_rowdata resp' ''value'') \<and>
   (geometry resp = None \<and> (\<exists>b. geometry resp' = Some b) \<and> ngeometry resp' = 0 \<longrightarrow>
      viewrow_rowdata resp ''geometry'' = viewrow_rowdata resp' ''geometry'') \<and>
   (docid resp = None \<and> (\<exists>b. docid resp' = Some b) \<and> ndocid resp' = 0 \<longrightarrow>
      viewrow_rowdata resp ''id'' = viewrow_rowdata resp' ''id'')"
  by (auto simp: viewrow_rowdata_fields sv_from_rowdata_cases split: option.split)

theorem row_fields_absent_or_utf8_witness:
  "viewrow_rowdata row_ex ''key'' = Some (PV ''k1'' True) \<and>
   viewrow_rowdata row_ex ''value'' = Some Undef \<and>
   viewrow_rowdata row_ex ''geometry'' = Some Undef \<and>
   viewrow_rowdata row_ex ''id'' = Some (PV ''doc-1'' True) \<and>
   viewrow_rowdata row_novalue_ex ''value'' = viewrow_rowdata row_ex ''value''"
  using row_fields_absent_or_utf8 [of row_ex row_ex]
    row_fields_absent_or_utf8 [of row_novalue_ex row_ex]
  by (simp add: row_ex_def row_novalue_ex_def)

text \<open>
  Claim C5 as stated fails: a row whose value is missing and a row whose value is
  present but empty give the same entry, the undefined value.
\<close>

theorem missing_and_empty_alike_counterexample:
  "value row_novalue_ex = None \<and> value row_ex = Some [] \<and> nvalue row_ex = 0 \<and>
   viewrow_rowdata row_novalue_ex ''value'' = Some Undef \<and>
   viewrow_rowdata row_ex ''value'' = Some Undef"
  by (simp add: viewrow_rowdata_fields sv_from_rowdata_cases row_ex_def row_novalue_ex_def)

text \<open>
  Claim C6. For a row event with a document sub-response, the row has the entry
  \<^verbatim>\<open>__doc__\<close> exactly when the status of the sub-response is success, and then it holds
  the document bytes. Key and value are filled from the row event either way, and the
  row is delivered to the consumer by the time the final event has been dispatched.
\<close>

theorem embedded_document_iff_success:
  "(\<forall>d. docresp resp = Some d \<longrightarrow>
      (viewrow_rowdata resp ''__doc__'' \<noteq> None) = (doc_rc d = LCB_SUCCESS) \<and>
      (doc_rc d = LCB_SUCCESS \<longrightarrow>
         viewrow_rowdata resp ''__doc__'' = Some (newSVpvn (doc_value d) (doc_nvalue d)))) \<and>
   viewrow_rowdata resp ''key'' = Some (sv_from_rowdata (key resp) (nkey resp)) \<and>
   viewrow_rowdata resp ''value'' = Some (sv_from_rowdata (value resp) (nvalue resp)) \<and>
   (\<not> is_final resp \<and> (\<forall>r\<in>set pre. \<not> is_final r) \<and> (\<forall>r\<in>set post. \<not> is_final r) \<and>
    is_final f \<longrightarrow>
      (\<exists>w'. dispatch_events meth w (pre @ resp # post @ [f]) = Normal w' \<and>
         viewrow_rowdata resp \<in> set (concat (batches (calls w')))))"
proof -
  have "\<exists>w'. dispatch_events meth w (pre @ resp # post @ [f]) = Normal w' \<and>
         viewrow_rowdata resp \<in> set (concat (batches (calls w')))"
    if "\<not> is_final resp" "\<forall>r\<in>set pre. \<not> is_final r" "\<forall>r\<in>set post. \<not> is_final r" "is_final f"
  proof -
    from that have "\<forall>r\<in>set (pre @ resp # post). \<not> is_final r" by auto
    from dispatch_query [OF this that(4), of meth w]
    obtain w' where w': "dispatch_events meth w ((pre @ resp # post) @ [f]) = Normal w'"
      and c: "concat (batches (calls w'))
        = concat (batches (calls w)) @ RAWROWS (req w) @ map viewrow_rowdata (pre @ resp # post)"
      by blast
    have "viewrow_rowdata resp \<in> set (concat (batches (calls w')))"
      unfolding c by simp
    with w' show ?thesis by simp
  qed
  then show ?thesis
    by (simp add: viewrow_rowdata_fields viewrow_rowdata_doc)
qed

theorem embedded_document_iff_success_witness:
  "viewrow_rowdata row_docfail_ex ''__doc__'' = None \<and>
   viewrow_rowdata row_docfail_ex ''key'' = Some (PV ''k1'' True) \<and>
   viewrow_rowdata row_docok_ex ''__doc__'' = Some (PV ''{}'' False) \<and>
   (\<exists>w'. dispatch_events consumer_ok world_ex ([row_ex] @ row_docfail_ex # [row2_ex] @ [final_ex])
            = Normal w' \<and>
      viewrow_rowdata row_docfail_ex \<in> set (concat (batches (calls w'))))"
proof -
  have nf: "\<not> is_final row_docfail_ex"
    by (simp add: is_final_def row_docfail_ex_def row_ex_def LCB_RESP_F_FINAL_def)
  have "viewrow_rowdata row_docfail_ex ''__doc__'' = None"
    and "viewrow_rowdata row_docfail_ex ''key'' = Some (PV ''k1'' True)"
    using embedded_document_iff_success [of row_docfail_ex "[]" "[]" final_ex consumer_ok world_ex]
    by (simp_all add: row_docfail_ex_def row_ex_def LCB_SUCCESS_def sv_from_rowdata_cases)
  moreover have "viewrow_rowdata row_docok_ex ''__doc__'' = Some (PV ''{}'' False)"
    using embedded_document_iff_success [of row_docok_ex "[]" "[]" final_ex consumer_ok world_ex]
    by (simp add: row_docok_ex_def row_ex_def LCB_SUCCESS_def)
  moreover have "\<exists>w'. dispatch_events consumer_ok world_ex
        ([row_ex] @ row_docfail_ex # [row2_ex] @ [final_ex]) = Normal w' \<and>
      viewrow_rowdata row_docfail_ex \<in> set (concat (batches (calls w')))"
    using embedded_document_iff_success
      [of row_docfail_ex "[row_ex]" "[row2_ex]" final_ex consumer_ok world_ex]
    by (simp add: nf not_final_row_ex not_final_row2_ex is_final_final_ex)
  ultimately show ?thesis by blast
qed

text \<open>
  Claim C10, as the code has it. The document of a successful sub-response goes
  through \<^verbatim>\<open>newSVpvn\<close> alone: its bytes are stored without the UTF-8 flag, a payload of
  length zero at a non-null pointer gives an empty string, and a null pointer gives an
  entry that holds the undefined value. The metadata of the final event goes through
  \<^verbatim>\<open>sv_from_rowdata\<close> and is undefined when it is empty.
\<close>

theorem embedded_document_verbatim:
  "(\<forall>d. docresp resp = Some d \<and> doc_rc d = LCB_SUCCESS \<longrightarrow>
      (\<forall>b. doc_value d = Some b \<longrightarrow>
         viewrow_rowdata resp ''__doc__'' = Some (PV (take (doc_nvalue d) b) False)) \<and>
      (doc_value d = None \<longrightarrow> viewrow_rowdata resp ''__doc__'' = Some Undef)) \<and>
   (is_final f \<longrightarrow>
      (\<exists>w'. viewrow_callback meth w f = Normal w' \<and>
         META (req w') = Some (sv_from_rowdata (value f) (nvalue f)) \<and>
         (value f = None \<or> nvalue f = 0 \<longrightarrow> META (req w') = Some Undef)))"
  by (auto simp: viewrow_rowdata_doc viewrow_callback_final sv_from_rowdata_cases
      split: option.split)

theorem embedded_document_verbatim_witness:
  "viewrow_rowdata row_docempty_ex ''__doc__'' = Some (PV [] False) \<and>
   viewrow_rowdata row_docok_ex ''__doc__'' = Some (PV ''{}'' False) \<and>
   viewrow_rowdata row_docnull_ex ''__doc__'' = Some Undef \<and>
   (\<exists>w'. viewrow_callback consumer_ok world_ex final_empty_ex = Normal w' \<and>
      META (req w') = Some Undef)"
proof -
  note t = embedded_document_verbatim
  have "viewrow_rowdata row_docempty_ex ''__doc__'' = Some (PV [] False)"
    using t [of row_docempty_ex final_ex consumer_ok world_ex, THEN conjunct1] by (simp add: row_docempty_ex_def row_ex_def LCB_SUCCESS_def)
  moreover have "viewrow_rowdata row_docok_ex ''__doc__'' = Some (PV ''{}'' False)"
    using t [of row_docok_ex final_ex consumer_ok world_ex, THEN conjunct1] by (simp add: row_docok_ex_def row_ex_def LCB_SUCCESS_def)
  moreover have "viewrow_rowdata row_docnull_ex ''__doc__'' = Some Undef"
    using t [of row_docnull_ex final_ex consumer_ok world_ex, THEN conjunct1] by (simp add: row_docnull_ex_def row_ex_def LCB_SUCCESS_def)
  moreover have "\<exists>w'. viewrow_callback consumer_ok world_ex final_empty_ex = Normal w' \<and>
      META (req w') = Some Undef"
    using t [of row_ex final_empty_ex consumer_ok world_ex, THEN conjunct2]
    by (auto simp: is_final_final_empty_ex final_empty_ex_simps)
  ultimately show ?thesis by blast
qed

text \<open>
  Claim C10 as stated fails for a null pointer: the entry \<^verbatim>\<open>__doc__\<close> of a successful
  sub-response without a payload holds the undefined value, not an empty string.
\<close>

theorem null_document_counterexample:
  "viewrow_rowdata row_docnull_ex ''__doc__'' = Some Undef"
  by (simp add: viewrow_rowdata_doc row_docnull_ex_def row_ex_def LCB_SUCCESS_def)

subsection \<open>Completion\<close>

lemma viewhandle_new_slots:
  assumes "PLCB__viewhandle_new eng se h parent d v opts fl = (h', Normal vh)"
  shows "slots vh = \<lparr>ROWBUF = [], RAWROWS = [], ISDONE = None, RC = None, META = None,
                      HTCODE = None\<rparr>"
  using assms
  by (auto simp: PLCB__viewhandle_new_def rowreq_init_common_def Let_def split_def
      split: if_splits)

text \<open>
  Claim C8, as the code has it. A new handle has none of the four completion slots set.
  Row events leave them as they are, after every prefix of a run of row events. Every
  final event that is dispatched sets the completion flag, the result code and the
  metadata to its own values, and the transport status when the event has one, whatever
  the slots held before. So when row events are followed by a single final event,
  delivered while the cookie is referenced, the slots are written once, at that event.
  In any run the engine can deliver, a completion flag that is set stays set.
\<close>

theorem terminal_fields_written_per_final_event:
  "(\<forall>h' vh. PLCB__viewhandle_new eng se h parent d v opts fl = (h', Normal vh) \<longrightarrow>
      ISDONE (slots vh) = None \<and> RC (slots vh) = None \<and> META (slots vh) = None \<and>
      HTCODE (slots vh) = None) \<and>
   ((\<forall>r\<in>set rs. \<not> is_final r) \<longrightarrow>
      (\<forall>k\<le>length rs. \<exists>wk. dispatch_events meth w (take k rs) = Normal wk \<and>
         ISDONE (req wk) = ISDONE (req w) \<and> RC (req wk) = RC (req w) \<and>
         META (req wk) = META (req w) \<and> HTCODE (req wk) = HTCODE (req w))) \<and>
   (is_final f \<longrightarrow>
      (\<exists>w2. viewrow_callback meth w f = Normal w2 \<and>
         ISDONE (req w2) = Some Yes \<and> RC (req w2) = Some (IV (rc f)) \<and>
         META (req w2) = Some (sv_from_rowdata (value f) (nvalue f)) \<and>
         HTCODE (req w2) = (case htresp f of None \<Rightarrow> HTCODE (req w)
                            | Some ht \<Rightarrow> Some (IV (htstatus ht))))) \<and>
   ((\<forall>r\<in>set rs. \<not> is_final r) \<and> is_final f \<and>
    (\<forall>r\<in>set (rs @ [f]). cookie_req (heap w) (cookie r) \<noteq> None) \<longrightarrow>
      (\<exists>w'. engine_events meth w (rs @ [f]) = Some (Normal w') \<and>
         ISDONE (req w') = Some Yes \<and> RC (req w') = Some (IV (rc f)) \<and>
         META (req w') = Some (sv_from_rowdata (value f) (nvalue f)) \<and>
         HTCODE (req w') = (case htresp f of None \<Rightarrow> HTCODE (req w)
                            | Some ht \<Rightarrow> Some (IV (htstatus ht))))) \<and>
   (\<forall>r. engine_events meth w resps = Some r \<longrightarrow>
      (\<exists>w3. r = Normal w3 \<and>
         (ISDONE (req w) = Some Yes \<longrightarrow> ISDONE (req w3) = Some Yes)))"
proof (intro conjI allI impI)
  fix h' vh
  assume "PLCB__viewhandle_new eng se h parent d v opts fl = (h', Normal vh)"
  from viewhandle_new_slots [OF this]
  show "ISDONE (slots vh) = None" "RC (slots vh) = None" "META (slots vh) = None"
    "HTCODE (slots vh) = None"
    by simp_all
next
  fix k
  assume "\<forall>r\<in>set rs. \<not> is_final r"
  then have "\<forall>r\<in>set (take k rs). \<not> is_final r"
    by (meson in_set_takeD)
  from dispatch_rows [OF this, of meth w]
  show "\<exists>wk. dispatch_events meth w (take k rs) = Normal wk \<and>
         ISDONE (req wk) = ISDONE (req w) \<and> RC (req wk) = RC (req w) \<and>
         META (req wk) = META (req w) \<and> HTCODE (req wk) = HTCODE (req w)"
    by blast
next
  assume "is_final f"
  then show "\<exists>w2. viewrow_callback meth w f = Normal w2 \<and>
         ISDONE (req w2) = Some Yes \<and> RC (req w2) = Some (IV (rc f)) \<and>
         META (req w2) = Some (sv_from_rowdata (value f) (nvalue f)) \<and>
         HTCODE (req w2) = (case htresp f of None \<Rightarrow> HTCODE (req w)
                            | Some ht \<Rightarrow> Some (IV (htstatus ht)))"
    by (simp add: viewrow_callback_final)
next
  assume a: "(\<forall>r\<in>set rs. \<not> is_final r) \<and> is_final f \<and>
    (\<forall>r\<in>set (rs @ [f]). cookie_req (heap w) (cookie r) \<noteq> None)"
  then have e: "engine_events meth w (rs @ [f]) = Some (dispatch_events meth w (rs @ [f]))"
    by (intro engine_events_query) simp_all
  from a dispatch_rows [of rs meth w]
  obtain w1 where w1: "dispatch_events meth w rs = Normal w1"
    and s: "HTCODE (req w1) = HTCODE (req w)"
    by blast
  from a have f: "is_final f" by simp
  show "\<exists>w'. engine_events meth w (rs @ [f]) = Some (Normal w') \<and>
         ISDONE (req w') = Some Yes \<and> RC (req w') = Some (IV (rc f)) \<and>
         META (req w') = Some (sv_from_rowdata (value f) (nvalue f)) \<and>
         HTCODE (req w') = (case htresp f of None \<Rightarrow> HTCODE (req w)
                            | Some ht \<Rightarrow> Some (IV (htstatus ht)))"
    using e w1 s
    by (simp add: dispatch_events_append viewrow_callback_final [OF f] split: option.split)
next
  fix r
  assume "engine_events meth w resps = Some r"
  then have "r = dispatch_events meth w resps"
    by (rule engine_events_dispatch)
  with dispatch_events_notices [of meth w resps]
  show "\<exists>w3. r = Normal w3 \<and> (ISDONE (req w) = Some Yes \<longrightarrow> ISDONE (req w3) = Some Yes)"
    by auto
qed

theorem terminal_fields_written_per_final_event_witness:
  "(\<exists>h' vh. PLCB__viewhandle_new engine_accept strerror_ex parent_heap_ex parent_ex
               ''dd'' ''by_name'' ''limit=25'' 0 = (h', Normal vh) \<and>
      ISDONE (slots vh) = None \<and> RC (slots vh) = None \<and> META (slots vh) = None \<and>
      HTCODE (slots vh) = None) \<and>
   (\<exists>w1. dispatch_events consumer_ok world_ex (take 1 [row_ex, row2_ex]) = Normal w1 \<and>
      ISDONE (req w1) = None \<and> RC (req w1) = None \<and> META (req w1) = None \<and>
      HTCODE (req w1) = None) \<and>
   (\<exists>w2. viewrow_callback consumer_ok world_ex final_ex = Normal w2 \<and>
      ISDONE (req w2) = Some Yes \<and> RC (req w2) = Some (IV 0) \<and>
      META (req w2) = Some (PV ''{\"total_rows\":25}'' True) \<and>
      HTCODE (req w2) = Some (IV 200)) \<and>
   (\<exists>w'. engine_events consumer_ok world_ex ([row_ex, row2_ex] @ [final_ex]) = Some (Normal w') \<and>
      ISDONE (req w') = Some Yes \<and> RC (req w') = Some (IV 0) \<and>
      META (req w') = Some (PV ''{\"total_rows\":25}'' True) \<and>
      HTCODE (req w') = Some (IV 200)) \<and>
   (\<exists>w2 w3. engine_events consumer_ok world2_ex [final_ex] = Some (Normal w2) \<and>
      ISDONE (req w2) = Some Yes \<and>
      engine_events consumer_ok w2 ([row_ex] @ [final_err_ex]) = Some (Normal w3) \<and>
      ISDONE (req w3) = Some Yes)"
proof -
  note t = terminal_fields_written_per_final_event [of engine_accept strerror_ex
      parent_heap_ex parent_ex "''dd''" "''by_name''" "''limit=25''" 0 "[row_ex, row2_ex]"
      consumer_ok world_ex final_ex "[]"]
  have "\<exists>h' vh. PLCB__viewhandle_new engine_accept strerror_ex parent_heap_ex parent_ex
               ''dd'' ''by_name'' ''limit=25'' 0 = (h', Normal vh)"
    by (simp add: PLCB__viewhandle_new_def Let_def split_def engine_accept_def)
  with t [THEN conjunct1]
  have 1: "\<exists>h' vh. PLCB__viewhandle_new engine_accept strerror_ex parent_heap_ex parent_ex
               ''dd'' ''by_name'' ''limit=25'' 0 = (h', Normal vh) \<and>
      ISDONE (slots vh) = None \<and> RC (slots vh) = None \<and> META (slots vh) = None \<and>
      HTCODE (slots vh) = None"
    by blast
  have nf: "\<forall>r\<in>set [row_ex, row2_ex]. \<not> is_final r"
    by (simp add: not_final_row_ex not_final_row2_ex)
  from t [THEN conjunct2, THEN conjunct1, THEN mp, OF nf, THEN spec, of 1]
  have 2: "\<exists>w1. dispatch_events consumer_ok world_ex (take 1 [row_ex, row2_ex]) = Normal w1 \<and>
      ISDONE (req w1) = None \<and> RC (req w1) = None \<and> META (req w1) = None \<and>
      HTCODE (req w1) = None"
    by (simp add: world_ex_def req_ex_def)
  from t [THEN conjunct2, THEN conjunct2, THEN conjunct1]
  have 3: "\<exists>w2. viewrow_callback consumer_ok world_ex final_ex = Normal w2 \<and>
      ISDONE (req w2) = Some Yes \<and> RC (req w2) = Some (IV 0) \<and>
      META (req w2) = Some (PV ''{\"total_rows\":25}'' True) \<and>
      HTCODE (req w2) = Some (IV 200)"
    by (simp add: is_final_final_ex final_ex_simps sv_from_rowdata_cases)
  have live: "\<forall>r\<in>set ([row_ex, row2_ex] @ [final_ex]). cookie_req (heap world_ex) (cookie r) \<noteq> None"
    by (simp add: world_ex_def cookie_req_heap_ex row_ex_cookie final_ex_simps)
  from t [THEN conjunct2, THEN conjunct2, THEN conjunct2, THEN conjunct1] nf live
  have 4: "\<exists>w'. engine_events consumer_ok world_ex ([row_ex, row2_ex] @ [final_ex])
        = Some (Normal w') \<and>
      ISDONE (req w') = Some Yes \<and> RC (req w') = Some (IV 0) \<and>
      META (req w') = Some (PV ''{\"total_rows\":25}'' True) \<and>
      HTCODE (req w') = Some (IV 200)"
    by (simp add: is_final_final_ex final_ex_simps sv_from_rowdata_cases)
  from engine_first_final obtain w2
    where w2: "engine_events consumer_ok world2_ex [final_ex] = Some (Normal w2)"
      and h2: "heap w2 = heap_ex" and d2: "ISDONE (req w2) = Some Yes"
    by blast
  note u = terminal_fields_written_per_final_event [of engine_accept strerror_ex
      parent_heap_ex parent_ex "''dd''" "''by_name''" "''limit=25''" 0 "[row_ex]"
      consumer_ok w2 final_err_ex "[row_ex] @ [final_err_ex]"]
  have "\<exists>w3. engine_events consumer_ok w2 ([row_ex] @ [final_err_ex]) = Some (Normal w3)"
    using u [THEN conjunct2, THEN conjunct2, THEN conjunct2, THEN conjunct1]
    by (auto simp: not_final_row_ex is_final_final_err_ex h2 cookie_req_heap_ex row_ex_cookie
        final_err_ex_simps)
  with u [THEN conjunct2, THEN conjunct2, THEN conjunct2, THEN conjunct2] d2
  have "\<exists>w3. engine_events consumer_ok w2 ([row_ex] @ [final_err_ex]) = Some (Normal w3) \<and>
      ISDONE (req w3) = Some Yes"
    by auto
  with w2 d2 have 5: "\<exists>w2 w3. engine_events consumer_ok world2_ex [final_ex] = Some (Normal w2) \<and>
      ISDONE (req w2) = Some Yes \<and>
      engine_events consumer_ok w2 ([row_ex] @ [final_err_ex]) = Some (Normal w3) \<and>
      ISDONE (req w3) = Some Yes"
    by blast
  from 1 2 3 4 5 show ?thesis by blast
qed

text \<open>
  Claim C8 as stated fails: when the cookie is still referenced after the first final
  event, a second final event writes the result code and the metadata again, with its
  own values.
\<close>

theorem terminal_fields_rewritten_counterexample:
  "map_option RC (outcome_req (engine_events consumer_ok world2_ex [final_ex]))
     = Some (Some (IV 0)) \<and>
   map_option RC (outcome_req (engine_events consumer_ok world2_ex [final_ex, final_err_ex]))
     = Some (Some (IV 23)) \<and>
   map_option META (outcome_req (engine_events consumer_ok world2_ex [final_ex]))
     = Some (Some (PV ''{\"total_rows\":25}'' True)) \<and>
   map_option META (outcome_req (engine_events consumer_ok world2_ex [final_ex, final_err_ex]))
     = Some (Some (PV ''timeout'' True))"
  by (simp add: viewrow_callback_final [OF is_final_final_ex]
      viewrow_callback_final [OF is_final_final_err_ex] world2_ex_simps final_ex_simps
      final_err_ex_simps cookie_req_heap_ex release_heap2_ex sv_from_rowdata_cases)

text \<open>
  Claim C9, as the code has it. The dispatcher never looks at the completion flag and
  treats no event as a fatal error. In every run the engine can deliver, that is, while
  the cookie is still referenced when an event arrives, each final event runs the final
  path, so the consumer receives as many completion notices as final events are
  dispatched; it receives exactly one when row events are followed by a single final
  event. When the final event drops the last reference to the cookie, an event that
  follows it reads freed memory and nothing is said about it.
\<close>

theorem completion_notice_per_final_event:
  "(\<forall>r. engine_events meth w resps = Some r \<longrightarrow>
      (\<exists>w'. r = Normal w' \<and>
         length (filter (\<lambda>c. snd c = None) (calls w'))
           = length (filter (\<lambda>c. snd c = None) (calls w)) + length (filter is_final resps))) \<and>
   ((\<forall>r\<in>set rs. \<not> is_final r) \<and> is_final f \<and>
    (\<forall>r\<in>set (rs @ [f]). cookie_req (heap w) (cookie r) \<noteq> None) \<longrightarrow>
      (\<exists>w'. engine_events meth w (rs @ [f]) = Some (Normal w') \<and>
         length (filter (\<lambda>c. snd c = None) (calls w'))
           = length (filter (\<lambda>c. snd c = None) (calls w)) + 1)) \<and>
   (is_final f \<and> (\<exists>cl. lookup (heap w) (cookie f) = Some cl \<and> refcnt cl = 1) \<and>
    cookie e = cookie f \<longrightarrow>
      engine_events meth w (f # e # rest) = None)"
proof (intro conjI allI impI)
  fix r
  assume "engine_events meth w resps = Some r"
  then have "r = dispatch_events meth w resps"
    by (rule engine_events_dispatch)
  with dispatch_events_notices [of meth w resps]
  show "\<exists>w'. r = Normal w' \<and>
         length (filter (\<lambda>c. snd c = None) (calls w'))
           = length (filter (\<lambda>c. snd c = None) (calls w)) + length (filter is_final resps)"
    by auto
next
  assume a: "(\<forall>r\<in>set rs. \<not> is_final r) \<and> is_final f \<and>
    (\<forall>r\<in>set (rs @ [f]). cookie_req (heap w) (cookie r) \<noteq> None)"
  then have e: "engine_events meth w (rs @ [f]) = Some (dispatch_events meth w (rs @ [f]))"
    by (intro engine_events_query) simp_all
  from a have "length (filter is_final (rs @ [f])) = 1" by simp
  with dispatch_events_notices [of meth w "rs @ [f]"] e
  show "\<exists>w'. engine_events meth w (rs @ [f]) = Some (Normal w') \<and>
         length (filter (\<lambda>c. snd c = None) (calls w'))
           = length (filter (\<lambda>c. snd c = None) (calls w)) + 1"
    by auto
next
  assume a: "is_final f \<and> (\<exists>cl. lookup (heap w) (cookie f) = Some cl \<and> refcnt cl = 1) \<and>
    cookie e = cookie f"
  then obtain cl where "lookup (heap w) (cookie f) = Some cl" and "refcnt cl = 1"
    by blast
  with a show "engine_events meth w (f # e # rest) = None"
    by (intro engine_events_after_release [where cl = cl]) blast+
qed

theorem completion_notice_per_final_event_witness:
  "(\<exists>w'. engine_events consumer_ok world2_ex [final_ex, final_ex] = Some (Normal w') \<and>
      length (filter (\<lambda>c. snd c = None) (calls w')) = 2) \<and>
   (\<exists>w'. engine_events consumer_ok world_ex ([row_ex] @ [final_ex]) = Some (Normal w') \<and>
      length (filter (\<lambda>c. snd c = None) (calls w')) = 1) \<and>
   engine_events consumer_ok world_ex (final_ex # final_ex # []) = None"
proof -
  note t = completion_notice_per_final_event
  have "\<exists>w'. engine_events consumer_ok world2_ex [final_ex, final_ex] = Some (Normal w') \<and>
      length (filter (\<lambda>c. snd c = None) (calls w')) = 2"
    using t [of consumer_ok world2_ex "[final_ex, final_ex]" "[]" final_ex final_ex "[]",
        THEN conjunct1] engine_two_finals_defined
    by (auto simp: is_final_final_ex world2_ex_simps)
  moreover
  have "\<exists>w'. engine_events consumer_ok world_ex ([row_ex] @ [final_ex]) = Some (Normal w') \<and>
      length (filter (\<lambda>c. snd c = None) (calls w')) = 1"
    using t [of consumer_ok world_ex "[]" "[row_ex]" final_ex final_ex "[]",
        THEN conjunct2, THEN conjunct1]
    by (simp add: not_final_row_ex is_final_final_ex world_ex_simps world_ex_def
        cookie_req_heap_ex row_ex_cookie final_ex_simps)
  moreover
  have "engine_events consumer_ok world_ex (final_ex # final_ex # []) = None"
    using t [of consumer_ok world_ex "[]" "[]" final_ex final_ex "[]",
        THEN conjunct2, THEN conjunct2]
    by (simp add: is_final_final_ex world_ex_def heap_ex_def lookup_def final_ex_simps)
  ultimately show ?thesis by blast
qed

text \<open>
  Claim C9 as stated fails: when the cookie is still referenced after the first final
  event, a second final event is dispatched like the first and the consumer receives a
  second completion notice.
\<close>

theorem second_final_counterexample:
  "outcome_args (dispatch_events consumer_ok world2_ex [final_ex, final_ex])
     = [Some [], None, Some [], None] \<and>
   (case dispatch_events consumer_ok world2_ex [final_ex] of
      Normal w \<Rightarrow> lookup (heap w) (cookie final_ex)
    | Croak m \<Rightarrow> None) = Some \<lparr>refcnt = 1, body = RVb 0, stash = None\<rparr>"
  by (simp add: viewrow_callback_final [OF is_final_final_ex] world2_ex_def world_ex_def
      req_ex_def heap2_ex_def heap_ex_def SvREFCNT_dec_def lookup_def final_ex_simps)

subsection \<open>A rejected submission\<close>

lemmas store_defs = newAV_def newRV_noinc_def newRV_inc_def newSVsv_def sv_bless_def
  SvREFCNT_inc_def av_store_def alloc_def lookup_def nth_append list_update_append

lemma viewhandle_new_rejected:
  assumes p: "selfobj parent < length h" "h ! selfobj parent = Some pc" and rc: "0 < refcnt pc"
    and rej: "eng (instance parent) (length h + 7)
                \<lparr>ddoc = d, view = v, optstr = opts, cmdflags = fl\<rparr> = e" "e \<noteq> LCB_SUCCESS"
  shows "PLCB__viewhandle_new eng se h parent d v opts fl =
           (h @ replicate 8 None,
            Croak (''Couldn't issue view query: (0x'' @ fmt_x e @ ''): '' @ se e))"
proof -
  define g where "g = h[selfobj parent := Some (pc\<lparr>refcnt := Suc (refcnt pc)\<rparr>)]"
  define H1 where "H1 = h @ [Some \<lparr>refcnt = 1, body = AVb [], stash = None\<rparr>]"
  define H2 where "H2 = g @
     [Some \<lparr>refcnt = 1, body = AVb [(PLCB_VHIDX_PARENT, length h + 5),
         (PLCB_VHIDX_RAWROWS, length h + 4), (PLCB_VHIDX_ROWBUF, length h + 2)], stash = None\<rparr>,
      Some \<lparr>refcnt = 1, body = AVb [], stash = None\<rparr>,
      Some \<lparr>refcnt = 1, body = RVb (length h + 1), stash = None\<rparr>,
      Some \<lparr>refcnt = 1, body = AVb [], stash = None\<rparr>,
      Some \<lparr>refcnt = 1, body = RVb (length h + 3), stash = None\<rparr>,
      Some \<lparr>refcnt = 1, body = RVb (selfobj parent), stash = None\<rparr>]"
  define H3 where "H3 = H2 @ [Some \<lparr>refcnt = 1, body = RVb (length h), stash = None\<rparr>]"
  define H4 where "H4 = g @
     [Some \<lparr>refcnt = 1, body = AVb [(PLCB_VHIDX_PARENT, length h + 5),
         (PLCB_VHIDX_RAWROWS, length h + 4), (PLCB_VHIDX_ROWBUF, length h + 2)],
         stash = Some (view_stash parent)\<rparr>,
      Some \<lparr>refcnt = 1, body = AVb [], stash = None\<rparr>,
      Some \<lparr>refcnt = 1, body = RVb (length h + 1), stash = None\<rparr>,
      Some \<lparr>refcnt = 1, body = AVb [], stash = None\<rparr>,
      Some \<lparr>refcnt = 1, body = RVb (length h + 3), stash = None\<rparr>,
      Some \<lparr>refcnt = 1, body = RVb (selfobj parent), stash = None\<rparr>,
      Some \<lparr>refcnt = 1, body = RVb (length h), stash = None\<rparr>]"
  define H5 where "H5 = g @
     [Some \<lparr>refcnt = 2, body = AVb [(PLCB_VHIDX_PARENT, length h + 5),
         (PLCB_VHIDX_RAWROWS, length h + 4), (PLCB_VHIDX_ROWBUF, length h + 2)],
         stash = Some (view_stash parent)\<rparr>,
      Some \<lparr>refcnt = 1, body = AVb [], stash = None\<rparr>,
      Some \<lparr>refcnt = 1, body = RVb (length h + 1), stash = None\<rparr>,
      Some \<lparr>refcnt = 1, body = AVb [], stash = None\<rparr>,
      Some \<lparr>refcnt = 1, body = RVb (length h + 3), stash = None\<rparr>,
      Some \<lparr>refcnt = 1, body = RVb (selfobj parent), stash = None\<rparr>,
      Some \<lparr>refcnt = 1, body = RVb (length h), stash = None\<rparr>,
      Some \<lparr>refcnt = 1, body = RVb (length h), stash = None\<rparr>]"
  define H6 where "H6 = g @
     [Some \<lparr>refcnt = 1, body = AVb [(PLCB_VHIDX_PARENT, length h + 5),
         (PLCB_VHIDX_RAWROWS, length h + 4), (PLCB_VHIDX_ROWBUF, length h + 2)],
         stash = Some (view_stash parent)\<rparr>,
      Some \<lparr>refcnt = 1, body = AVb [], stash = None\<rparr>,
      Some \<lparr>refcnt = 1, body = RVb (length h + 1), stash = None\<rparr>,
      Some \<lparr>refcnt = 1, body = AVb [], stash = None\<rparr>,
      Some \<lparr>refcnt = 1, body = RVb (length h + 3), stash = None\<rparr>,
      Some \<lparr>refcnt = 1, body = RVb (selfobj parent), stash = None\<rparr>,
      None,
      Some \<lparr>refcnt = 1, body = RVb (length h), stash = None\<rparr>]"
  have lg: "length g = length h" and gp: "g ! selfobj parent = Some (pc\<lparr>refcnt := Suc (refcnt pc)\<rparr>)"
    using p by (simp_all add: g_def)
  have e1: "newAV h = (H1, length h)"
    by (simp add: H1_def store_defs)
  have e2: "rowreq_init_common H1 parent (length h) =
      (H2, \<lparr>ROWBUF = [], RAWROWS = [], ISDONE = None, RC = None, META = None, HTCODE = None\<rparr>)"
    using p by (simp add: H1_def H2_def g_def rowreq_init_common_def Let_def store_defs)
  have e3: "newRV_noinc H2 (length h) = (H3, length h + 6)"
    by (simp add: H3_def H2_def lg store_defs)
  have e4: "sv_bless H3 (length h + 6) (view_stash parent) = H4"
    by (simp add: H3_def H2_def H4_def lg store_defs)
  have e5: "newSVsv H4 (length h + 6) = (H5, length h + 7)"
    by (simp add: H4_def H5_def lg store_defs)
  have e6: "SvREFCNT_dec H5 (length h + 6) = H6"
    by (simp add: H5_def H6_def lg SvREFCNT_dec_def lookup_def nth_append list_update_append)
  have e7: "SvREFCNT_dec H6 (length h + 7) = h @ replicate 8 None"
    using p rc gp
    apply (simp add: H6_def lg SvREFCNT_dec_def lookup_def nth_append list_update_append)
    apply (simp add: g_def list_update_same_conv numeral_eq_Suc)
    done
  show ?thesis
    using rej
    by (simp add: PLCB__viewhandle_new_def Let_def e1 e2 e3 e4 e5 e6 e7
        lcb_view_query_initcmd_def)
qed

text \<open>
  Claim C7. When the engine's submit call returns a status other than success, the call
  croaks at once with a message that carries the status in hexadecimal and the engine's
  text for it. By then the eight cells the call had allocated (the handle array, its two
  buffers and the references to them, the reference to the parent, the reference meant
  for the issuer and the cookie meant for the engine) have all been released, and every
  older cell, the parent with its count included, is as it was: no handle and no cookie
  are left. The cookie is the eighth cell allocated, at address \<open>length h + 7\<close>.
\<close>

theorem submission_failure_releases_handle:
  assumes "lookup h (selfobj parent) = Some pc" and "0 < refcnt pc"
    and "lcb_view_query (instance parent) (length h + 7)
           \<lparr>ddoc = d, view = v, optstr = opts, cmdflags = fl\<rparr> = e"
    and "e \<noteq> LCB_SUCCESS"
  shows "PLCB__viewhandle_new lcb_view_query lcb_strerror h parent d v opts fl =
           (h @ replicate 8 None,
            Croak (''Couldn't issue view query: (0x'' @ fmt_x e @ ''): '' @ lcb_strerror e))"
proof -
  from assms(1) have "selfobj parent < length h" and "h ! selfobj parent = Some pc"
    by (simp_all add: lookup_def split: if_splits)
  then show ?thesis
    by (rule viewhandle_new_rejected) fact+
qed

theorem submission_failure_releases_handle_witness:
  "PLCB__viewhandle_new engine_reject strerror_ex parent_heap_ex parent_ex
     ''dd'' ''by_name'' ''limit=25'' 0 =
   ([Some \<lparr>refcnt = 1, body = Scalar, stash = Some ''Couchbase::Bucket''\<rparr>,
     None, None, None, None, None, None, None, None],
    Croak ''Couldn't issue view query: (0x16): Network failure'')"
proof -
  have 1: "lookup parent_heap_ex (selfobj parent_ex)
      = Some \<lparr>refcnt = 1, body = Scalar, stash = Some ''Couchbase::Bucket''\<rparr>"
    by (simp add: parent_heap_ex_def parent_ex_def lookup_def)
  have 2: "0 < refcnt \<lparr>refcnt = 1, body = Scalar, stash = Some ''Couchbase::Bucket''\<rparr>"
    by simp
  have 3: "engine_reject (instance parent_ex) (length parent_heap_ex + 7)
      \<lparr>ddoc = ''dd'', view = ''by_name'', optstr = ''limit=25'', cmdflags = 0\<rparr> = 22"
    by (simp add: engine_reject_def)
  have 4: "(22 :: lcb_error_t) \<noteq> LCB_SUCCESS"
    by (simp add: LCB_SUCCESS_def)
  have 5: "fmt_x 22 = ''16''"
    by (simp add: fmt_x_def hex.simps [of 22] hex.simps [of "Suc 0"] hexdigit_def)
  have 6: "replicate 8 x = [x, x, x, x, x, x, x, x]" for x :: "cell option"
    by (simp add: numeral_eq_Suc)
  from submission_failure_releases_handle
    [where lcb_view_query = engine_reject and lcb_strerror = strerror_ex
       and h = parent_heap_ex and parent = parent_ex, OF 1 2 3 4]
  show ?thesis
    by (simp add: 5 6 strerror_ex_def parent_heap_ex_def)
qed

end
